theory Spec2Isabelle
  imports Complex_Main "HOL-Library.Product_Lexorder" "HOL-Library.Char_ord"
    "HOL-Library.List_Lexorder"
begin

section \<open>Quarter-over-quarter position changes of 13F holdings\<close>

text \<open>
  The development embeds the position-change classification of
  \<^verbatim>\<open>analyze_buys_sells_increases.py\<close> (repeated in
  \<^verbatim>\<open>create_final_enhanced_master.py\<close>), the per-company summaries built from
  it, and the row loader of \<^verbatim>\<open>csv_analyzer.py\<close>.

  Numbers: the scripts compute with binary floating point (pandas cells, Python
  \<^verbatim>\<open>float\<close>). The embedding uses \<^typ>\<open>real\<close>: every cell is a finite number and
  arithmetic is exact. Rounding, infinities and NaN are outside the embedding.
\<close>

subsection \<open>Python values used by the scripts\<close>

datatype py_error = ZeroDivisionError | KeyError | ValueError | AttributeError

text \<open>True division \<^verbatim>\<open>a / b\<close>; a zero divisor is an error, not a number.\<close>

definition py_div :: "real \<Rightarrow> real \<Rightarrow> py_error + real" where
  "py_div a b = (if b = 0 then Inl ZeroDivisionError else Inr (a / b))"

text \<open>
  A Python \<^verbatim>\<open>dict\<close> keeps its keys in the order of their first insertion;
  assigning to a key that is present replaces the value and leaves the key where it is.
  The dict is an association list in iteration order.
\<close>

fun dict_set :: "'k \<Rightarrow> 'v \<Rightarrow> ('k \<times> 'v) list \<Rightarrow> ('k \<times> 'v) list" where
  "dict_set k v [] = [(k, v)]"
| "dict_set k v ((k', v') # d) =
     (if k' = k then (k', v) # d else (k', v') # dict_set k v d)"

text \<open>\<^verbatim>\<open>key in d\<close>\<close>

definition dict_has :: "('k \<times> 'v) list \<Rightarrow> 'k \<Rightarrow> bool" where
  "dict_has d k = (map_of d k \<noteq> None)"

subsection \<open>Rows and positions\<close>

text \<open>
  A row of a snapshot file, with the columns the classification reads
  (\<^verbatim>\<open>row['fund_name']\<close>, \<^verbatim>\<open>row['company']\<close>, ...).
\<close>

record row =
  col_fund_name :: string
  col_company :: string
  col_ticker :: string
  col_industry :: string
  col_value :: real
  col_shares :: real

text \<open>
  The dict stored per position key. The field \<^verbatim>\<open>'value'\<close> is \<open>value_amt\<close> here.
  The last four keys are absent (\<open>None\<close>) until the change pass copies the dict and
  sets them.
\<close>

record position =
  value_amt :: real
  shares :: real
  company :: string
  ticker :: string
  fund_name :: string
  industry :: string
  q4_value :: "real option"
  q1_value :: "real option"
  pct_change :: "real option"
  dollar_change :: "real option"

definition position_of :: "row \<Rightarrow> position" where
  "position_of r =
     \<lparr> value_amt = col_value r, shares = col_shares r, company = col_company r,
       ticker = col_ticker r, fund_name = col_fund_name r, industry = col_industry r,
       q4_value = None, q1_value = None, pct_change = None, dollar_change = None \<rparr>"

text \<open>\<^verbatim>\<open>f"{row['fund_name']}||{row['company']}"\<close>\<close>

definition create_position_key :: "string \<Rightarrow> string \<Rightarrow> string" where
  "create_position_key fund cname = fund @ ''||'' @ cname"

text \<open>
  The classification is written once over the key function, which reads the fund name and
  the company of a row; the scripts use \<^const>\<open>create_position_key\<close>.
\<close>

definition row_key :: "(string \<Rightarrow> string \<Rightarrow> 'k) \<Rightarrow> row \<Rightarrow> 'k" where
  "row_key key r = key (col_fund_name r) (col_company r)"

definition pos_key :: "(string \<Rightarrow> string \<Rightarrow> 'k) \<Rightarrow> position \<Rightarrow> 'k" where
  "pos_key key p = key (fund_name p) (company p)"

text \<open>
  \<^verbatim>\<open>for _, row in df.iterrows(): positions[create_position_key(row)] = {...}\<close>
\<close>

definition build_positions ::
  "(string \<Rightarrow> string \<Rightarrow> 'k) \<Rightarrow> row list \<Rightarrow> ('k \<times> position) list" where
  "build_positions key rows =
     foldl (\<lambda>d r. dict_set (row_key key r) (position_of r) d) [] rows"

subsection \<open>The classification\<close>

text \<open>\<^verbatim>\<open>for key in a: if key not in b: out.append(a[key])\<close>\<close>

definition only_in :: "('k \<times> position) list \<Rightarrow> ('k \<times> position) list \<Rightarrow> position list" where
  "only_in a b = map snd (filter (\<lambda>(k, p). \<not> dict_has b k) a)"

text \<open>
  \<^verbatim>\<open>increase_data\<close> and \<^verbatim>\<open>decrease_data\<close>: the copy of a position dict with
  the keys \<^verbatim>\<open>'q4_value'\<close>, \<^verbatim>\<open>'q1_value'\<close>, \<^verbatim>\<open>'pct_change'\<close> and
  \<^verbatim>\<open>'dollar_change'\<close> set.
\<close>

definition change_data :: "position \<Rightarrow> real \<Rightarrow> real \<Rightarrow> real \<Rightarrow> position" where
  "change_data p q4v q1v pct =
     p\<lparr> q4_value := Some q4v, q1_value := Some q1v, pct_change := Some pct,
        dollar_change := Some (q1v - q4v) \<rparr>"

text \<open>
  The third loop of \<^verbatim>\<open>analyze_buys_sells_increases\<close>, over the items of
  \<^verbatim>\<open>q1_positions\<close> in order, with the two output lists as accumulators and the
  threshold \<open>t\<close> (the script has 0.5 and -0.5).
\<close>

fun change_pass ::
  "real \<Rightarrow> ('k \<times> position) list \<Rightarrow> ('k \<times> position) list \<Rightarrow>
     position list \<times> position list \<Rightarrow> py_error + (position list \<times> position list)" where
  "change_pass t q4 [] acc = Inr acc"
| "change_pass t q4 ((k, p1) # rest) (incs, decs) =
     (case map_of q4 k of
        None \<Rightarrow> change_pass t q4 rest (incs, decs)
      | Some p4 \<Rightarrow>
          (let q1v = value_amt p1; q4v = value_amt p4 in
           if q4v > 0 then
             (case py_div (q1v - q4v) q4v of
                Inl e \<Rightarrow> Inl e
              | Inr pct \<Rightarrow>
                  if pct > t then
                    change_pass t q4 rest (incs @ [change_data p1 q4v q1v pct], decs)
                  else if pct < - t then
                    change_pass t q4 rest (incs, decs @ [change_data p4 q4v q1v pct])
                  else change_pass t q4 rest (incs, decs))
           else change_pass t q4 rest (incs, decs)))"

record changes =
  new_buys :: "position list"
  position_exits :: "position list"
  position_increases :: "position list"
  position_decreases :: "position list"

definition classify ::
  "(string \<Rightarrow> string \<Rightarrow> 'k) \<Rightarrow> real \<Rightarrow> row list \<Rightarrow> row list \<Rightarrow> py_error + changes" where
  "classify key t q1_2025 q4_2024 =
     (let q1_positions = build_positions key q1_2025;
          q4_positions = build_positions key q4_2024
      in case change_pass t q4_positions q1_positions ([], []) of
           Inl e \<Rightarrow> Inl e
         | Inr (incs, decs) \<Rightarrow>
             Inr \<lparr> new_buys = only_in q1_positions q4_positions,
                   position_exits = only_in q4_positions q1_positions,
                   position_increases = incs,
                   position_decreases = decs \<rparr>)"


text \<open>
  The third loop of \<^verbatim>\<open>perform_enhanced_position_changes_analysis\<close>
  (\<^verbatim>\<open>create_final_enhanced_master.py\<close>): the same loop without the
  \<^verbatim>\<open>elif\<close> branch, so with one output list.
\<close>

fun increase_pass ::
  "real \<Rightarrow> ('k \<times> position) list \<Rightarrow> ('k \<times> position) list \<Rightarrow>
     position list \<Rightarrow> py_error + position list" where
  "increase_pass t q4 [] incs = Inr incs"
| "increase_pass t q4 ((k, p1) # rest) incs =
     (case map_of q4 k of
        None \<Rightarrow> increase_pass t q4 rest incs
      | Some p4 \<Rightarrow>
          (let q1v = value_amt p1; q4v = value_amt p4 in
           if q4v > 0 then
             (case py_div (q1v - q4v) q4v of
                Inl e \<Rightarrow> Inl e
              | Inr pct \<Rightarrow>
                  if pct > t then
                    increase_pass t q4 rest (incs @ [change_data p1 q4v q1v pct])
                  else increase_pass t q4 rest incs)
           else increase_pass t q4 rest incs))"

text \<open>
  The three lists of that function before they are summarised:
  \<^verbatim>\<open>(new_buys, position_exits, position_increases)\<close>.
\<close>

definition enhanced_position_changes ::
  "(string \<Rightarrow> string \<Rightarrow> 'k) \<Rightarrow> real \<Rightarrow> row list \<Rightarrow> row list \<Rightarrow>
     py_error + (position list \<times> position list \<times> position list)" where
  "enhanced_position_changes key t q1_2025 q4_2024 =
     (let q1_positions = build_positions key q1_2025;
          q4_positions = build_positions key q4_2024
      in case increase_pass t q4_positions q1_positions [] of
           Inl e \<Rightarrow> Inl e
         | Inr incs \<Rightarrow>
             Inr (only_in q1_positions q4_positions, only_in q4_positions q1_positions, incs))"

subsection \<open>What the change pass emits, item by item\<close>

text \<open>
  The entry the change pass appends to \<^verbatim>\<open>position_increases\<close> (respectively
  \<^verbatim>\<open>position_decreases\<close>) for one item of \<^verbatim>\<open>q1_positions\<close>, if any. The
  lemma \<open>change_pass_eq\<close> shows that the loop computes exactly these.
\<close>

definition inc_entry :: "real \<Rightarrow> ('k \<times> position) list \<Rightarrow> 'k \<times> position \<Rightarrow> position option" where
  "inc_entry t q4 kp =
     (case map_of q4 (fst kp) of
        None \<Rightarrow> None
      | Some p4 \<Rightarrow>
          (let q1v = value_amt (snd kp); q4v = value_amt p4; pct = (q1v - q4v) / q4v in
           if q4v > 0 \<and> pct > t then Some (change_data (snd kp) q4v q1v pct) else None))"

definition dec_entry :: "real \<Rightarrow> ('k \<times> position) list \<Rightarrow> 'k \<times> position \<Rightarrow> position option" where
  "dec_entry t q4 kp =
     (case map_of q4 (fst kp) of
        None \<Rightarrow> None
      | Some p4 \<Rightarrow>
          (let q1v = value_amt (snd kp); q4v = value_amt p4; pct = (q1v - q4v) / q4v in
           if q4v > 0 \<and> \<not> pct > t \<and> pct < - t then Some (change_data p4 q4v q1v pct) else None))"

text \<open>
  Invariant of a built index: the keys are distinct and every entry is stored under the key
  of its own fund name and company.
\<close>

definition keyed :: "(string \<Rightarrow> string \<Rightarrow> 'k) \<Rightarrow> ('k \<times> position) list \<Rightarrow> bool" where
  "keyed key d = (distinct (map fst d) \<and> list_all (\<lambda>kp. pos_key key (snd kp) = fst kp) d)"

text \<open>The keys of an output list.\<close>

definition emitted_keys :: "(string \<Rightarrow> string \<Rightarrow> 'k) \<Rightarrow> position list \<Rightarrow> 'k list" where
  "emitted_keys key ps = map (pos_key key) ps"

subsection \<open>Example rows\<close>

definition fund_a_aapl :: "real \<Rightarrow> row" where
  "fund_a_aapl v = \<lparr> col_fund_name = ''FundA'', col_company = ''AAPL'', col_ticker = ''AAPL'',
     col_industry = ''Technology'', col_value = v, col_shares = 10 \<rparr>"

definition fund_b_new :: "real \<Rightarrow> row" where
  "fund_b_new v = \<lparr> col_fund_name = ''FundB'', col_company = ''NEW'', col_ticker = ''NEW'',
     col_industry = ''Biotechnology'', col_value = v, col_shares = 5 \<rparr>"

subsection \<open>The index as the specification words it\<close>

text \<open>
  The specification's step 1 of the classifier, in its own words: building the index of a
  snapshot fails with \<open>DuplicateKeyError\<close> when two rows have the same key, and is the
  mapping from key to position otherwise. This definition follows the specification, not
  the scripts; it is compared with \<^const>\<open>build_positions\<close> below.
\<close>

datatype index_error = DuplicateKeyError

definition spec_build_index ::
  "(string \<Rightarrow> string \<Rightarrow> 'k) \<Rightarrow> row list \<Rightarrow> index_error + ('k \<times> position) list" where
  "spec_build_index key rows =
     (if distinct (map (row_key key) rows)
      then Inr (map (\<lambda>r. (row_key key r, position_of r)) rows)
      else Inl DuplicateKeyError)"

subsection \<open>The separator of position keys\<close>

text \<open>\<^verbatim>\<open>'||' in s\<close>: the string has two adjacent bars.\<close>

fun has_sep :: "string \<Rightarrow> bool" where
  "has_sep (a # b # s) = ((a = CHR ''|'' \<and> b = CHR ''|'') \<or> has_sep (b # s))"
| "has_sep _ = False"

text \<open>\<^verbatim>\<open>s.endswith('|')\<close>\<close>

definition ends_with_bar :: "string \<Rightarrow> bool" where
  "ends_with_bar s = (s \<noteq> [] \<and> last s = CHR ''|'')"

text \<open>
  \<^verbatim>\<open>s.split('||')\<close>: the pieces between the occurrences of the separator, found
  from the left and without overlap; \<open>cur\<close> holds the current piece, reversed.
\<close>

fun split_sep :: "string \<Rightarrow> string \<Rightarrow> string list" where
  "split_sep cur (a # b # s) =
     (if a = CHR ''|'' \<and> b = CHR ''|'' then rev cur # split_sep [] s
      else split_sep (a # cur) (b # s))"
| "split_sep cur [a] = [rev (a # cur)]"
| "split_sep cur [] = [rev cur]"

text \<open>
  \<^verbatim>\<open>fund_name, company = position_key.split('||')\<close> of
  \<^verbatim>\<open>analyze_new_buys_sells.py\<close>: unpacking anything but two pieces raises
  \<^verbatim>\<open>ValueError\<close>.
\<close>

definition split_position_key :: "string \<Rightarrow> py_error + (string \<times> string)" where
  "split_position_key position_key =
     (case split_sep [] position_key of
        [fund, cname] \<Rightarrow> Inr (fund, cname)
      | _ \<Rightarrow> Inl ValueError)"

text \<open>A row with the given fund name, company and value.\<close>

definition bar_row :: "string \<Rightarrow> string \<Rightarrow> real \<Rightarrow> row" where
  "bar_row fund cname v = \<lparr> col_fund_name = fund, col_company = cname, col_ticker = ''X'',
     col_industry = ''Biotechnology'', col_value = v, col_shares = 1 \<rparr>"

section \<open>The row loader of \<^verbatim>\<open>csv_analyzer.py\<close>\<close>

subsection \<open>Cells and rows of a data frame\<close>

text \<open>
  A cell of a pandas row: text, a number, or the missing value (an empty cell of the file
  is read as NaN, a float).
\<close>

datatype cell = Str string | Num real | NaN

text \<open>
  A row after the column names have been matched: for each role the cell of the matched
  column, or \<open>None\<close> when no column matched
  (\<^verbatim>\<open>row.get(matched_columns.get(role, ''), default)\<close> then yields the default).
\<close>

record csv_row =
  company_cell :: "cell option"
  ticker_cell :: "cell option"
  value_cell :: "cell option"
  shares_cell :: "cell option"

text \<open>\<^verbatim>\<open>row.get(column, default)\<close>\<close>

definition row_get :: "cell option \<Rightarrow> cell \<Rightarrow> cell" where
  "row_get c dflt = (case c of None \<Rightarrow> dflt | Some x \<Rightarrow> x)"

subsection \<open>Strings\<close>

text \<open>
  The ASCII characters that \<^verbatim>\<open>str.strip()\<close> and \<^verbatim>\<open>float()\<close> skip as white
  space: codes 9 to 13 and 28 to 32. Strings are byte strings here; white space and letters
  outside ASCII are outside the embedding.
\<close>

definition is_space :: "char \<Rightarrow> bool" where
  "is_space c = (let n = (of_char c :: nat) in (9 \<le> n \<and> n \<le> 13) \<or> (28 \<le> n \<and> n \<le> 32))"

text \<open>\<^verbatim>\<open>s.strip()\<close>\<close>

definition py_strip :: "string \<Rightarrow> string" where
  "py_strip s = rev (dropWhile is_space (rev (dropWhile is_space s)))"

text \<open>
  \<^verbatim>\<open>cell.strip()\<close>: only text has the method; on a number or on NaN the call raises
  \<^verbatim>\<open>AttributeError\<close>.
\<close>

definition strip_cell :: "cell \<Rightarrow> py_error + string" where
  "strip_cell c = (case c of Str s \<Rightarrow> Inr (py_strip s) | Num x \<Rightarrow> Inl AttributeError
                   | NaN \<Rightarrow> Inl AttributeError)"

text \<open>\<^verbatim>\<open>s.replace(c, '')\<close> for a single character \<open>c\<close>\<close>

definition remove_char :: "char \<Rightarrow> string \<Rightarrow> string" where
  "remove_char c s = filter (\<lambda>x. x \<noteq> c) s"

text \<open>\<^verbatim>\<open>s.upper()\<close>, on ASCII letters\<close>

definition upper_char :: "char \<Rightarrow> char" where
  "upper_char c =
     (case map_of (zip ''abcdefghijklmnopqrstuvwxyz'' ''ABCDEFGHIJKLMNOPQRSTUVWXYZ'') c of
        None \<Rightarrow> c
      | Some u \<Rightarrow> u)"

definition py_upper :: "string \<Rightarrow> string" where
  "py_upper s = map upper_char s"

subsection \<open>Reading a number from text\<close>

text \<open>
  \<^verbatim>\<open>float(s)\<close> on the decimal literals of Python: optional white space around,
  an optional sign, digits with single underscores between them allowed, an optional point
  and fraction, an optional exponent. \<open>None\<close> is \<^verbatim>\<open>ValueError\<close>. The value is the
  exact real number. The spellings of infinity and NaN, which \<^verbatim>\<open>float\<close> also reads,
  have no value in the embedding and are \<open>None\<close> here.
\<close>

definition is_digit :: "char \<Rightarrow> bool" where
  "is_digit c = (c \<in> set ''0123456789'')"

definition digit_val :: "char \<Rightarrow> nat" where
  "digit_val c = of_char c - 48"

definition nat_of_digits :: "string \<Rightarrow> nat" where
  "nat_of_digits ds = foldl (\<lambda>n c. 10 * n + digit_val c) 0 ds"

text \<open>
  The rest of a digit part after a digit: more digits, each optionally preceded by one
  underscore. Returns the digits and the unread rest.
\<close>

fun digits_more :: "string \<Rightarrow> string \<times> string" where
  "digits_more [] = ([], [])"
| "digits_more [c] = (if is_digit c then ([c], []) else ([], [c]))"
| "digits_more (c # d # cs) =
     (if is_digit c then (let (ds, r) = digits_more (d # cs) in (c # ds, r))
      else if c = CHR ''_'' \<and> is_digit d then (let (ds, r) = digits_more cs in (d # ds, r))
      else ([], c # d # cs))"

text \<open>The longest digit part at the start of the string (no digits if there is none).\<close>

definition digitpart :: "string \<Rightarrow> string \<times> string" where
  "digitpart s =
     (case s of
        [] \<Rightarrow> ([], [])
      | c # cs \<Rightarrow> if is_digit c then (let (ds, r) = digits_more cs in (c # ds, r)) else ([], s))"

text \<open>An optional sign: whether it is a minus, and the rest.\<close>

definition take_sign :: "string \<Rightarrow> bool \<times> string" where
  "take_sign s =
     (case s of
        [] \<Rightarrow> (False, [])
      | c # cs \<Rightarrow> if c = CHR ''-'' then (True, cs) else if c = CHR ''+'' then (False, cs)
                  else (False, s))"

text \<open>
  What follows the mantissa: nothing, or an exponent that uses up the string. Returns
  whether the exponent is negative, and its magnitude.
\<close>

definition exponent :: "string \<Rightarrow> (bool \<times> nat) option" where
  "exponent s =
     (case s of
        [] \<Rightarrow> Some (False, 0)
      | c # cs \<Rightarrow>
          if c = CHR ''e'' \<or> c = CHR ''E'' then
            (let (neg, r) = take_sign cs; (ds, r') = digitpart r
             in if ds \<noteq> [] \<and> r' = [] then Some (neg, nat_of_digits ds) else None)
          else None)"

text \<open>
  An unsigned literal: a digit part, an optional point with an optional digit part, at
  least one digit in all, and the exponent.
\<close>

definition float_literal :: "string \<Rightarrow> real option" where
  "float_literal s =
     (let (ip, r1) = digitpart s;
          (fp, r2) = (case r1 of [] \<Rightarrow> ([], [])
                      | c # cs \<Rightarrow> if c = CHR ''.'' then digitpart cs else ([], r1))
      in if ip = [] \<and> fp = [] then None
         else (case exponent r2 of
                 None \<Rightarrow> None
               | Some (neg, e) \<Rightarrow>
                   (let m = real (nat_of_digits ip) + real (nat_of_digits fp) / 10 ^ length fp
                    in Some (if neg then m / 10 ^ e else m * 10 ^ e))))"

text \<open>\<^verbatim>\<open>float(s)\<close>\<close>

definition py_float :: "string \<Rightarrow> real option" where
  "py_float s =
     (let (neg, r) = take_sign (py_strip s)
      in case float_literal r of None \<Rightarrow> None | Some x \<Rightarrow> Some (if neg then - x else x))"

subsection \<open>The row loop of \<^verbatim>\<open>parse_csv_file\<close>\<close>

text \<open>
  The value field when it is text: the four \<^verbatim>\<open>replace\<close> calls and the
  \<^verbatim>\<open>if 'K' in value_raw.upper()\<close> chain give the text to read and the
  multiplier.
\<close>

definition value_text_parts :: "string \<Rightarrow> string \<times> real" where
  "value_text_parts s =
     (let v0 = remove_char (CHR '')'') (remove_char (CHR ''('') (remove_char (CHR '','')
                 (remove_char (CHR ''$'') s)))
      in if CHR ''K'' \<in> set (py_upper v0) then (remove_char (CHR ''K'') (py_upper v0), 1000)
         else if CHR ''M'' \<in> set (py_upper v0)
           then (remove_char (CHR ''M'') (py_upper v0), 1000000)
         else if CHR ''B'' \<in> set (py_upper v0)
           then (remove_char (CHR ''B'') (py_upper v0), 1000000000)
         else (v0, 1))"

text \<open>
  \<^verbatim>\<open>try: value = float(value_raw) * multiplier\<close>,
  \<^verbatim>\<open>except: value = 0\<close>
\<close>

definition parse_value_text :: "string \<Rightarrow> real" where
  "parse_value_text s =
     (case value_text_parts s of
        (v1, multiplier) \<Rightarrow> (case py_float v1 of None \<Rightarrow> 0 | Some x \<Rightarrow> x * multiplier))"

text \<open>
  The value field: text as above; otherwise
  \<^verbatim>\<open>float(value_raw) if pd.notna(value_raw) else 0\<close>.
\<close>

definition parse_value :: "cell \<Rightarrow> real" where
  "parse_value value_raw =
     (case value_raw of Str s \<Rightarrow> parse_value_text s | Num x \<Rightarrow> x | NaN \<Rightarrow> 0)"

text \<open>The shares field.\<close>

definition parse_shares :: "cell \<Rightarrow> real" where
  "parse_shares shares_raw =
     (case shares_raw of
        Str s \<Rightarrow> (case py_float (remove_char (CHR '','') s) of None \<Rightarrow> 0 | Some x \<Rightarrow> x)
      | Num x \<Rightarrow> x
      | NaN \<Rightarrow> 0)"

text \<open>The dict appended to \<^verbatim>\<open>self.holdings_data\<close>.\<close>

record holding =
  h_fund_name :: string
  h_company :: string
  h_ticker :: string
  h_shares :: real
  h_value :: real

text \<open>
  The body of the \<^verbatim>\<open>try\<close> block for one row. \<open>Inl e\<close>: the body raised \<open>e\<close>;
  \<open>Inr None\<close>: it ran through without appending; \<open>Inr (Some h)\<close>: it appended \<open>h\<close>.
\<close>

definition parse_row :: "string \<Rightarrow> csv_row \<Rightarrow> py_error + holding option" where
  "parse_row fund r =
     (case strip_cell (row_get (company_cell r) (Str [])) of
        Inl e \<Rightarrow> Inl e
      | Inr cname \<Rightarrow>
          (case strip_cell (row_get (ticker_cell r) (Str [])) of
             Inl e \<Rightarrow> Inl e
           | Inr tick \<Rightarrow>
               (let v = parse_value (row_get (value_cell r) (Num 0));
                    sh = parse_shares (row_get (shares_cell r) (Num 0))
                in if cname \<noteq> [] \<and> (v > 0 \<or> sh > 0)
                   then Inr (Some \<lparr> h_fund_name = fund, h_company = cname, h_ticker = tick,
                                    h_shares = sh, h_value = v \<rparr>)
                   else Inr None)))"

text \<open>
  The loop over the rows, with \<^verbatim>\<open>self.holdings_data\<close> and
  \<^verbatim>\<open>holdings_count\<close> as state; \<^verbatim>\<open>except Exception: continue\<close> is the first
  case.
\<close>

fun parse_rows :: "string \<Rightarrow> csv_row list \<Rightarrow> holding list \<times> nat \<Rightarrow> holding list \<times> nat" where
  "parse_rows fund [] st = st"
| "parse_rows fund (r # rs) (holdings_data, holdings_count) =
     (case parse_row fund r of
        Inl e \<Rightarrow> parse_rows fund rs (holdings_data, holdings_count)
      | Inr None \<Rightarrow> parse_rows fund rs (holdings_data, holdings_count)
      | Inr (Some h) \<Rightarrow> parse_rows fund rs (holdings_data @ [h], holdings_count + 1))"

text \<open>
  \<^verbatim>\<open>parse_csv_file\<close> from the rows of the data frame on: the fund name comes from
  the file name, the count starts at 0, and the function returns the count; the list is the
  new \<^verbatim>\<open>self.holdings_data\<close>.
\<close>

definition parse_csv_file :: "string \<Rightarrow> csv_row list \<Rightarrow> holding list \<Rightarrow> holding list \<times> nat" where
  "parse_csv_file fund rows holdings_data = parse_rows fund rows (holdings_data, 0)"

text \<open>A row whose company cell is empty.\<close>

definition no_company_row :: csv_row where
  "no_company_row = \<lparr> company_cell = Some NaN, ticker_cell = Some (Str ''ACME''),
     value_cell = Some (Num 5), shares_cell = Some (Num 5) \<rparr>"

text \<open>A row of a company with the given ticker, value and shares cells.\<close>

definition acme_row :: "cell \<Rightarrow> cell \<Rightarrow> cell \<Rightarrow> csv_row" where
  "acme_row tick v sh = \<lparr> company_cell = Some (Str ''Acme Corp''), ticker_cell = Some tick,
     value_cell = Some v, shares_cell = Some sh \<rparr>"

section \<open>Per-company summaries\<close>

text \<open>
  The dict of one summary row. The fields \<^verbatim>\<open>'company'\<close>, \<^verbatim>\<open>'ticker'\<close> and
  \<^verbatim>\<open>'industry'\<close> are \<open>d_company\<close>, \<open>d_ticker\<close> and \<open>d_industry\<close> here. The
  key \<^verbatim>\<open>'fund_names'\<close> is set by \<^verbatim>\<open>create_enhanced_summary\<close> only, and the last
  two keys for increases only.
\<close>

record detail =
  d_company :: string
  d_ticker :: string
  funds_count :: nat
  fund_names :: "string option"
  total_value :: real
  avg_position_size :: real
  d_industry :: string
  avg_pct_increase :: "real option"
  total_dollar_increase :: "real option"

text \<open>\<^verbatim>\<open>sep.join(xs)\<close>\<close>

fun py_join :: "string \<Rightarrow> string list \<Rightarrow> string" where
  "py_join sep [] = []"
| "py_join sep [x] = x"
| "py_join sep (x # y # ys) = x @ sep @ py_join sep (y # ys)"

text \<open>
  \<^verbatim>\<open>xs.sort(key=f, reverse=True)\<close> and \<^verbatim>\<open>sorted(xs, key=f, reverse=True)\<close>:
  a stable sort in descending order of the key, so that elements with equal keys keep
  their order.
\<close>

definition sort_desc :: "('a \<Rightarrow> 'b::linorder) \<Rightarrow> 'a list \<Rightarrow> 'a list" where
  "sort_desc f xs = rev (sort_key f (rev xs))"

text \<open>\<^verbatim>\<open>d.get(k, default)\<close>, on the result of the lookup\<close>

definition get_or :: "'a option \<Rightarrow> 'a \<Rightarrow> 'a" where
  "get_or x dflt = (case x of None \<Rightarrow> dflt | Some v \<Rightarrow> v)"

text \<open>
  The grouping loop of \<^verbatim>\<open>create_enhanced_summary\<close>
  (\<^verbatim>\<open>create_final_enhanced_master.py\<close>): a \<^verbatim>\<open>defaultdict\<close> from company to
  the funds and the positions seen for it, in the order the companies first appear.
\<close>

definition company_to_funds ::
  "position list \<Rightarrow> (string \<times> (string list \<times> position list)) list" where
  "company_to_funds positions =
     foldl (\<lambda>d pos.
        (let (funds, ps) = get_or (map_of d (company pos)) ([], [])
         in dict_set (company pos) (funds @ [fund_name pos], ps @ [pos]) d))
       [] positions"

text \<open>
  One summary row of \<^verbatim>\<open>create_enhanced_summary\<close>. The division by
  \<^verbatim>\<open>len(positions)\<close> is reached only when some position of the group has
  \<^verbatim>\<open>'pct_change'\<close>, so the divisor is positive.
\<close>

definition enhanced_detail :: "string \<Rightarrow> string \<times> (string list \<times> position list) \<Rightarrow> detail" where
  "enhanced_detail category_name item =
     (case item of (cname, funds, positions) \<Rightarrow>
        (let fund_count = length funds;
             total = sum_list (map value_amt positions);
             detail = \<lparr> d_company = cname,
                        d_ticker = (case positions of [] \<Rightarrow> [] | p # _ \<Rightarrow> ticker p),
                        funds_count = fund_count,
                        fund_names = Some (py_join '', '' (sort funds)),
                        total_value = total,
                        avg_position_size = (if fund_count > 0 then total / real fund_count else 0),
                        d_industry = (case positions of [] \<Rightarrow> [] | p # _ \<Rightarrow> industry p),
                        avg_pct_increase = None, total_dollar_increase = None \<rparr>
         in if category_name = ''increases'' \<and> list_ex (\<lambda>pos. pct_change pos \<noteq> None) positions
            then detail\<lparr> avg_pct_increase :=
                            Some (sum_list (map (\<lambda>pos. get_or (pct_change pos) 0) positions) /
                                  real (length positions)),
                          total_dollar_increase :=
                            Some (sum_list (map (\<lambda>pos. get_or (dollar_change pos) 0) positions)) \<rparr>
            else detail))"

text \<open>
  \<^verbatim>\<open>detailed.sort(key=lambda x: (x['funds_count'], x['total_value']), reverse=True)\<close>
  and \<^verbatim>\<open>return detailed[:25]\<close>; tuples compare lexicographically.
\<close>

definition create_enhanced_summary :: "position list \<Rightarrow> string \<Rightarrow> detail list" where
  "create_enhanced_summary positions category_name =
     take 25 (sort_desc (\<lambda>x. (funds_count x, total_value x))
       (map (enhanced_detail category_name) (company_to_funds positions)))"

text \<open>
  The result of \<^verbatim>\<open>perform_enhanced_position_changes_analysis\<close>: the summaries under
  the keys \<^verbatim>\<open>'new_buys'\<close>, \<^verbatim>\<open>'increases'\<close> and \<^verbatim>\<open>'exits'\<close>.
\<close>

definition perform_enhanced_position_changes_analysis ::
  "row list \<Rightarrow> row list \<Rightarrow> py_error + (detail list \<times> detail list \<times> detail list)" where
  "perform_enhanced_position_changes_analysis q1_2025 q4_2024 =
     (case enhanced_position_changes create_position_key (1 / 2) q1_2025 q4_2024 of
        Inl e \<Rightarrow> Inl e
      | Inr (buys, exits, increases) \<Rightarrow>
          Inr (create_enhanced_summary buys ''new_buys'',
               create_enhanced_summary increases ''increases'',
               create_enhanced_summary exits ''exits''))"

text \<open>\<^verbatim>\<open>Counter(xs)\<close>: the counts, in the order the elements first appear\<close>

definition counter_of :: "string list \<Rightarrow> (string \<times> nat) list" where
  "counter_of xs = foldl (\<lambda>d x. dict_set x (get_or (map_of d x) 0 + 1) d) [] xs"

text \<open>
  \<^verbatim>\<open>counter.most_common(n)\<close>: the \<open>n\<close> largest counts, in descending order,
  elements with equal counts in the order they first appeared.
\<close>

definition most_common :: "nat \<Rightarrow> (string \<times> nat) list \<Rightarrow> (string \<times> nat) list" where
  "most_common n counter = take n (sort_desc snd counter)"

text \<open>
  \<^verbatim>\<open>sum(pos[k] for pos in ps)\<close>, where \<open>f\<close> reads the key \<open>k\<close>: a position
  without the key raises \<^verbatim>\<open>KeyError\<close>.
\<close>

fun sum_key :: "(position \<Rightarrow> real option) \<Rightarrow> position list \<Rightarrow> py_error + real" where
  "sum_key f [] = Inr 0"
| "sum_key f (pos # ps) =
     (case f pos of
        None \<Rightarrow> Inl KeyError
      | Some x \<Rightarrow> (case sum_key f ps of Inl e \<Rightarrow> Inl e | Inr s \<Rightarrow> Inr (x + s)))"

text \<open>
  One summary row of \<^verbatim>\<open>create_detailed_analysis\<close>
  (\<^verbatim>\<open>analyze_buys_sells_increases.py\<close>), for one company and its count.
\<close>

definition detailed_entry :: "position list \<Rightarrow> string \<Rightarrow> string \<times> nat \<Rightarrow> py_error + detail" where
  "detailed_entry positions category_name item =
     (case item of (cname, count) \<Rightarrow>
        (let company_positions = filter (\<lambda>pos. company pos = cname) positions;
             total = sum_list (map value_amt company_positions);
             avg_value = (if company_positions \<noteq> []
                          then total / real (length company_positions) else 0);
             detail = \<lparr> d_company = cname,
                        d_ticker = (case company_positions of [] \<Rightarrow> [] | p # _ \<Rightarrow> ticker p),
                        funds_count = count,
                        fund_names = None,
                        total_value = total,
                        avg_position_size = avg_value,
                        d_industry = (case company_positions of [] \<Rightarrow> [] | p # _ \<Rightarrow> industry p),
                        avg_pct_increase = None, total_dollar_increase = None \<rparr>
         in if category_name = ''increases'' \<and>
               (case company_positions of [] \<Rightarrow> False | p # _ \<Rightarrow> pct_change p \<noteq> None)
            then (case sum_key pct_change company_positions of
                    Inl e \<Rightarrow> Inl e
                  | Inr pct_total \<Rightarrow>
                      (case sum_key dollar_change company_positions of
                         Inl e \<Rightarrow> Inl e
                       | Inr dollar_total \<Rightarrow>
                           Inr (detail\<lparr> avg_pct_increase :=
                                           Some (pct_total / real (length company_positions)),
                                         total_dollar_increase := Some dollar_total \<rparr>)))
            else Inr detail))"

text \<open>The loop of \<^verbatim>\<open>create_detailed_analysis\<close> over the most common companies.\<close>

fun detailed_loop ::
  "position list \<Rightarrow> string \<Rightarrow> (string \<times> nat) list \<Rightarrow> py_error + detail list" where
  "detailed_loop positions category_name [] = Inr []"
| "detailed_loop positions category_name (item # items) =
     (case detailed_entry positions category_name item of
        Inl e \<Rightarrow> Inl e
      | Inr d \<Rightarrow>
          (case detailed_loop positions category_name items of
             Inl e \<Rightarrow> Inl e
           | Inr ds \<Rightarrow> Inr (d # ds)))"

definition create_detailed_analysis ::
  "position list \<Rightarrow> (string \<times> nat) list \<Rightarrow> string \<Rightarrow> py_error + detail list" where
  "create_detailed_analysis positions company_counter category_name =
     detailed_loop positions category_name (most_common 30 company_counter)"

text \<open>
  The order the specification asks for: row \<open>a\<close> may stand before row \<open>b\<close> when \<open>a\<close> has more funds,
  or as many funds and at least the total value.
\<close>

definition count_then_value :: "detail \<Rightarrow> detail \<Rightarrow> bool" where
  "count_then_value a b =
     (funds_count b < funds_count a \<or>
      (funds_count b = funds_count a \<and> total_value b \<le> total_value a))"

text \<open>Two funds, each opening a position in a different company.\<close>

definition two_buys :: "position list" where
  "two_buys = [position_of (bar_row ''FundA'' ''Xenon Bio'' 10),
               position_of (bar_row ''FundB'' ''Yttrium Rx'' 20)]"

section \<open>Properties\<close>

subsection \<open>Dicts and the index of a snapshot\<close>

lemma map_of_dict_set: "map_of (dict_set k v d) = (map_of d)(k \<mapsto> v)"
  by (induction k v d rule: dict_set.induct) (auto simp: fun_eq_iff)

lemma keys_dict_set:
  "map fst (dict_set k v d) = (if k \<in> set (map fst d) then map fst d else map fst d @ [k])"
  by (induction k v d rule: dict_set.induct) auto

lemma distinct_dict_set: "distinct (map fst d) \<Longrightarrow> distinct (map fst (dict_set k v d))"
  by (simp add: keys_dict_set)

lemma set_dict_set: "set (dict_set k v d) \<subseteq> insert (k, v) (set d)"
  by (induction k v d rule: dict_set.induct) auto

lemma change_pass_eq:
  "change_pass t q4 q1 (incs, decs) =
     Inr (incs @ List.map_filter (inc_entry t q4) q1, decs @ List.map_filter (dec_entry t q4) q1)"
proof (induction q1 arbitrary: incs decs)
  case Nil
  show ?case by (simp add: map_filter_simps)
next
  case (Cons kp q1)
  obtain k p1 where kp: "kp = (k, p1)" by (cases kp)
  show ?case
    unfolding kp
    by (simp add: Cons.IH map_filter_simps inc_entry_def dec_entry_def py_div_def Let_def
        split: option.split)
qed

lemma dict_has_iff: "dict_has d k \<longleftrightarrow> k \<in> fst ` set d"
  by (simp add: dict_has_def map_of_eq_None_iff)

lemma pos_key_position_of: "pos_key key (position_of r) = row_key key r"
  by (simp add: pos_key_def row_key_def position_of_def)

lemma pos_key_change_data: "pos_key key (change_data p a b c) = pos_key key p"
  by (simp add: pos_key_def change_data_def)

lemma keyed_dict_set:
  "keyed key d \<Longrightarrow> pos_key key v = k \<Longrightarrow> keyed key (dict_set k v d)"
proof -
  assume kd: "keyed key d" and kv: "pos_key key v = k"
  have "list_all (\<lambda>kp. pos_key key (snd kp) = fst kp) d \<Longrightarrow>
      list_all (\<lambda>kp. pos_key key (snd kp) = fst kp) (dict_set k v d)"
    using kv by (induction k v d rule: dict_set.induct) auto
  with kd show ?thesis
    by (simp add: keyed_def distinct_dict_set)
qed

lemma foldl_keyed:
  "keyed key d \<Longrightarrow>
     keyed key (foldl (\<lambda>d r. dict_set (row_key key r) (position_of r) d) d rows)"
  by (induction rows arbitrary: d) (simp_all add: keyed_dict_set pos_key_position_of)

lemma keyed_build: "keyed key (build_positions key rows)"
  unfolding build_positions_def by (rule foldl_keyed) (simp add: keyed_def)

lemma foldl_keys:
  "fst ` set (foldl (\<lambda>d r. dict_set (row_key key r) (position_of r) d) d rows) =
     fst ` set d \<union> row_key key ` set rows"
proof (induction rows arbitrary: d)
  case Nil
  show ?case by simp
next
  case (Cons r rows)
  have "fst ` set (dict_set (row_key key r) (position_of r) d) = insert (row_key key r) (fst ` set d)"
    using keys_dict_set [of "row_key key r" "position_of r" d]
    by (metis (no_types, lifting) insert_absorb list.set_map set_append list.simps(15) 
        Un_insert_right sup_bot.right_neutral empty_set)
  then show ?case by (simp add: Cons.IH)
qed

lemma keys_build: "fst ` set (build_positions key rows) = row_key key ` set rows"
  unfolding build_positions_def by (simp add: foldl_keys)

lemma foldl_map_of:
  "map_of (foldl (\<lambda>d r. dict_set (row_key key r) (position_of r) d) d rows) =
     map_of d ++ map_of (rev (map (\<lambda>r. (row_key key r, position_of r)) rows))"
proof (induction rows arbitrary: d)
  case Nil
  show ?case by simp
next
  case (Cons r rows)
  show ?case
    by (simp add: Cons.IH map_of_dict_set map_add_def fun_eq_iff split: option.split)
qed

lemma map_of_build:
  "map_of (build_positions key rows) =
     map_of (rev (map (\<lambda>r. (row_key key r, position_of r)) rows))"
  unfolding build_positions_def by (simp add: foldl_map_of)

lemma dict_set_fresh: "k \<notin> fst ` set d \<Longrightarrow> dict_set k v d = d @ [(k, v)]"
  by (induction k v d rule: dict_set.induct) auto

lemma foldl_distinct_rows:
  "distinct (map fst d @ map (row_key key) rows) \<Longrightarrow>
     foldl (\<lambda>d r. dict_set (row_key key r) (position_of r) d) d rows =
       d @ map (\<lambda>r. (row_key key r, position_of r)) rows"
proof (induction rows arbitrary: d)
  case Nil
  show ?case by simp
next
  case (Cons r rows)
  from Cons.prems have fresh: "row_key key r \<notin> fst ` set d" by auto
  from Cons.prems have "distinct (map fst (d @ [(row_key key r, position_of r)]) @ map (row_key key) rows)"
    by auto
  from Cons.IH [OF this] show ?case by (simp add: dict_set_fresh [OF fresh])
qed

lemma build_distinct_rows:
  "distinct (map (row_key key) rows) \<Longrightarrow>
     build_positions key rows = map (\<lambda>r. (row_key key r, position_of r)) rows"
  unfolding build_positions_def using foldl_distinct_rows [of "[]" key rows] by simp

lemma classify_eq:
  "classify key t q1 q4 =
     Inr \<lparr> new_buys = only_in (build_positions key q1) (build_positions key q4),
           position_exits = only_in (build_positions key q4) (build_positions key q1),
           position_increases =
             List.map_filter (inc_entry t (build_positions key q4)) (build_positions key q1),
           position_decreases =
             List.map_filter (dec_entry t (build_positions key q4)) (build_positions key q1) \<rparr>"
  by (simp add: classify_def change_pass_eq Let_def)

lemma keyed_map_key:
  "keyed key d \<Longrightarrow> set xs \<subseteq> set d \<Longrightarrow> map (pos_key key) (map snd xs) = map fst xs"
  by (auto simp: keyed_def list_all_iff)

lemma keys_only_in:
  assumes "keyed key a"
  shows "map (pos_key key) (only_in a b) = filter (\<lambda>k. \<not> dict_has b k) (map fst a)"
proof -
  have "map (pos_key key) (only_in a b) = map fst (filter (\<lambda>(k, p). \<not> dict_has b k) a)"
    unfolding only_in_def by (rule keyed_map_key [OF assms]) simp
  also have "\<dots> = filter (\<lambda>k. \<not> dict_has b k) (map fst a)"
    by (simp add: filter_map comp_def case_prod_unfold)
  finally show ?thesis .
qed

lemma inc_entry_key: "inc_entry t q4 kp = Some e \<Longrightarrow> pos_key key e = pos_key key (snd kp)"
  by (auto simp: inc_entry_def Let_def pos_key_change_data split: option.splits if_splits)

lemma dec_entry_key:
  "keyed key q4 \<Longrightarrow> dec_entry t q4 kp = Some e \<Longrightarrow> pos_key key e = fst kp"
  by (auto simp: dec_entry_def Let_def pos_key_change_data keyed_def list_all_iff
      split: option.splits if_splits dest!: map_of_SomeD)

lemma keys_increases:
  "list_all (\<lambda>kp. pos_key key (snd kp) = fst kp) q1 \<Longrightarrow>
     map (pos_key key) (List.map_filter (inc_entry t q4) q1) =
       map fst (filter (\<lambda>kp. inc_entry t q4 kp \<noteq> None) q1)"
  by (induction q1) (auto simp: map_filter_simps dest: inc_entry_key split: option.splits)

lemma keys_decreases:
  "keyed key q4 \<Longrightarrow>
     map (pos_key key) (List.map_filter (dec_entry t q4) q1) =
       map fst (filter (\<lambda>kp. dec_entry t q4 kp \<noteq> None) q1)"
  by (induction q1) (auto simp: map_filter_simps dest: dec_entry_key split: option.splits)

lemma inc_entry_in_both: "inc_entry t q4 (k, p) = Some y \<Longrightarrow> dict_has q4 k"
  by (auto simp: inc_entry_def dict_has_def split: option.splits)

lemma dec_entry_in_both: "dec_entry t q4 (k, p) = Some y \<Longrightarrow> dict_has q4 k"
  by (auto simp: dec_entry_def dict_has_def split: option.splits)

lemma inc_dec_exclusive: "inc_entry t q4 kp \<noteq> None \<Longrightarrow> dec_entry t q4 kp = None"
  by (auto simp: inc_entry_def dec_entry_def Let_def split: option.splits if_splits)

lemma partition_keys:
  assumes k1: "keyed key q1" and k4: "keyed key q4"
  shows "distinct (emitted_keys key (only_in q1 q4) @ emitted_keys key (only_in q4 q1) @
           emitted_keys key (List.map_filter (inc_entry t q4) q1) @
           emitted_keys key (List.map_filter (dec_entry t q4) q1))"
proof -
  let ?O = "filter (\<lambda>k. \<not> dict_has q4 k) (map fst q1)"
  let ?C = "filter (\<lambda>k. \<not> dict_has q1 k) (map fst q4)"
  let ?I = "map fst (filter (\<lambda>kp. inc_entry t q4 kp \<noteq> None) q1)"
  let ?D = "map fst (filter (\<lambda>kp. dec_entry t q4 kp \<noteq> None) q1)"
  have d1: "distinct (map fst q1)" and d4: "distinct (map fst q4)"
    using k1 k4 by (simp_all add: keyed_def)
  have l1: "list_all (\<lambda>kp. pos_key key (snd kp) = fst kp) q1"
    using k1 by (simp add: keyed_def)
  have dO: "distinct ?O" and dC: "distinct ?C" using d1 d4 by simp_all
  have dI: "distinct ?I" and dD: "distinct ?D"
    using d1 by (simp_all add: distinct_map_filter)
  have OC: "set ?O \<inter> set ?C = {}" by (auto simp: dict_has_iff)
  have OI: "set ?O \<inter> set ?I = {}" by (auto dest: inc_entry_in_both)
  have OD: "set ?O \<inter> set ?D = {}" by (auto dest: dec_entry_in_both)
  have CI: "set ?C \<inter> set ?I = {}" by (force simp: dict_has_iff)
  have CD: "set ?C \<inter> set ?D = {}" by (force simp: dict_has_iff)
  have ID: "set ?I \<inter> set ?D = {}"
  proof -
    { fix k assume "k \<in> set ?I" and "k \<in> set ?D"
      then obtain p p' where a: "(k, p) \<in> set q1" "inc_entry t q4 (k, p) \<noteq> None"
        and b: "(k, p') \<in> set q1" "dec_entry t q4 (k, p') \<noteq> None"
        by auto
      from d1 a(1) b(1) have "p = p'" by (meson eq_key_imp_eq_value)
      with a(2) b(2) have False using inc_dec_exclusive [of t q4 "(k, p)"] by simp }
    then show ?thesis by blast
  qed
  have "distinct (?O @ ?C @ ?I @ ?D)"
    using dO dC dI dD OC OI OD CI CD ID by (simp add: Int_Un_distrib)
  then show ?thesis
    by (simp add: emitted_keys_def keys_only_in [OF k1] keys_only_in [OF k4]
        keys_increases [OF l1] keys_decreases [OF k4])
qed

lemma set_keys_only_in:
  "keyed key a \<Longrightarrow> set (emitted_keys key (only_in a b)) = fst ` set a - fst ` set b"
  by (auto simp: emitted_keys_def keys_only_in dict_has_iff)

lemma set_keys_increases:
  assumes "keyed key q1"
  shows "set (emitted_keys key (List.map_filter (inc_entry t q4) q1)) \<subseteq> fst ` set q1 \<inter> fst ` set q4"
proof -
  have l1: "list_all (\<lambda>kp. pos_key key (snd kp) = fst kp) q1"
    using assms by (simp add: keyed_def)
  show ?thesis
    unfolding emitted_keys_def keys_increases [OF l1]
    by (auto simp: dict_has_iff [symmetric] dest: inc_entry_in_both)
qed

lemma set_keys_decreases:
  assumes "keyed key q4"
  shows "set (emitted_keys key (List.map_filter (dec_entry t q4) q1)) \<subseteq> fst ` set q1 \<inter> fst ` set q4"
  unfolding emitted_keys_def keys_decreases [OF assms]
  by (auto simp: dict_has_iff [symmetric] dest: dec_entry_in_both)

subsection \<open>Partition of the position keys\<close>

text \<open>
  C1. For every pair of snapshots and every threshold, the classification returns, and
  the keys of the four output lists (Opened, Closed, Increased, Decreased, in this order)
  form one list without repetition: no key is emitted twice, neither within a list nor in
  two lists. The Opened keys are exactly the keys of the current snapshot that the prior
  snapshot lacks, the Closed keys exactly those of the prior snapshot that the current one
  lacks, and Increased and Decreased keys are keys of both. A key of either snapshot that
  is in none of the four lists is the fifth class (unchanged, or dropped by the guard on
  the prior value).
\<close>

theorem classification_partitions_keys:
  "\<exists>res. classify create_position_key t q1_2025 q4_2024 = Inr res \<and>
     distinct (emitted_keys create_position_key (new_buys res) @
               emitted_keys create_position_key (position_exits res) @
               emitted_keys create_position_key (position_increases res) @
               emitted_keys create_position_key (position_decreases res)) \<and>
     set (emitted_keys create_position_key (new_buys res)) =
       row_key create_position_key ` set q1_2025 - row_key create_position_key ` set q4_2024 \<and>
     set (emitted_keys create_position_key (position_exits res)) =
       row_key create_position_key ` set q4_2024 - row_key create_position_key ` set q1_2025 \<and>
     set (emitted_keys create_position_key (position_increases res)) \<union>
     set (emitted_keys create_position_key (position_decreases res)) \<subseteq>
       row_key create_position_key ` set q1_2025 \<inter> row_key create_position_key ` set q4_2024"
proof -
  let ?key = create_position_key
  let ?Q1 = "build_positions ?key q1_2025" and ?Q4 = "build_positions ?key q4_2024"
  have k1: "keyed ?key ?Q1" and k4: "keyed ?key ?Q4" by (rule keyed_build)+
  show ?thesis
    unfolding classify_eq
    using partition_keys [OF k1 k4, of t] set_keys_only_in [OF k1, of ?Q4]
      set_keys_only_in [OF k4, of ?Q1] set_keys_increases [OF k1, of t ?Q4]
      set_keys_decreases [OF k4, of t ?Q1]
    by (simp add: keys_build)
qed




lemma keyed_lookup:
  "keyed key d \<Longrightarrow> map_of d k = Some p \<Longrightarrow> (k, p') \<in> set d \<longleftrightarrow> p' = p"
  by (auto simp: keyed_def dest: map_of_SomeD eq_key_imp_eq_value)

lemma increased_key_iff:
  assumes k1: "keyed key q1" and l1: "map_of q1 k = Some p1"
  shows "k \<in> set (emitted_keys key (List.map_filter (inc_entry t q4) q1)) \<longleftrightarrow>
           inc_entry t q4 (k, p1) \<noteq> None"
proof -
  have l: "list_all (\<lambda>kp. pos_key key (snd kp) = fst kp) q1"
    using k1 by (simp add: keyed_def)
  have "k \<in> set (map fst (filter (\<lambda>kp. inc_entry t q4 kp \<noteq> None) q1)) \<longleftrightarrow>
        (\<exists>p. (k, p) \<in> set q1 \<and> inc_entry t q4 (k, p) \<noteq> None)"
    by force
  also have "\<dots> \<longleftrightarrow> inc_entry t q4 (k, p1) \<noteq> None"
    using keyed_lookup [OF k1 l1] by auto
  finally show ?thesis
    by (simp add: emitted_keys_def keys_increases [OF l])
qed

lemma decreased_key_iff:
  assumes k1: "keyed key q1" and k4: "keyed key q4" and l1: "map_of q1 k = Some p1"
  shows "k \<in> set (emitted_keys key (List.map_filter (dec_entry t q4) q1)) \<longleftrightarrow>
           dec_entry t q4 (k, p1) \<noteq> None"
proof -
  have "k \<in> set (map fst (filter (\<lambda>kp. dec_entry t q4 kp \<noteq> None) q1)) \<longleftrightarrow>
        (\<exists>p. (k, p) \<in> set q1 \<and> dec_entry t q4 (k, p) \<noteq> None)"
    by force
  also have "\<dots> \<longleftrightarrow> dec_entry t q4 (k, p1) \<noteq> None"
    using keyed_lookup [OF k1 l1] by auto
  finally show ?thesis
    by (simp add: emitted_keys_def keys_decreases [OF k4])
qed

subsection \<open>Strict thresholds\<close>


lemmas build_eval = build_positions_def row_key_def create_position_key_def position_of_def


subsection \<open>The guard on the prior value\<close>

text \<open>
  C5. The classification never divides by zero: it returns normally for all snapshots
  and every threshold, where a zero divisor would be the error
  \<^const>\<open>ZeroDivisionError\<close>. A key of both snapshots whose prior value equals 0 is
  in none of the four output lists.
\<close>

theorem zero_prior_is_skipped:
  "\<exists>res. classify create_position_key t q1_2025 q4_2024 = Inr res \<and>
     classify create_position_key t q1_2025 q4_2024 \<noteq> Inl ZeroDivisionError \<and>
     (\<forall>k p1 p4.
        map_of (build_positions create_position_key q1_2025) k = Some p1 \<and>
        map_of (build_positions create_position_key q4_2024) k = Some p4 \<and>
        value_amt p4 = 0 \<longrightarrow>
          k \<notin> set (emitted_keys create_position_key (position_increases res)) \<and>
          k \<notin> set (emitted_keys create_position_key (position_decreases res)) \<and>
          k \<notin> set (emitted_keys create_position_key (new_buys res)) \<and>
          k \<notin> set (emitted_keys create_position_key (position_exits res)))"
proof -
  let ?key = create_position_key
  let ?Q1 = "build_positions ?key q1_2025" and ?Q4 = "build_positions ?key q4_2024"
  have k1: "keyed ?key ?Q1" and k4: "keyed ?key ?Q4" by (rule keyed_build)+
  let ?R = "\<lparr> new_buys = only_in ?Q1 ?Q4, position_exits = only_in ?Q4 ?Q1,
              position_increases = List.map_filter (inc_entry t ?Q4) ?Q1,
              position_decreases = List.map_filter (dec_entry t ?Q4) ?Q1 \<rparr>"
  have cl: "classify ?key t q1_2025 q4_2024 = Inr ?R"
    by (rule classify_eq)
  have skipped: "k \<notin> set (emitted_keys ?key (position_increases ?R)) \<and>
          k \<notin> set (emitted_keys ?key (position_decreases ?R)) \<and>
          k \<notin> set (emitted_keys ?key (new_buys ?R)) \<and>
          k \<notin> set (emitted_keys ?key (position_exits ?R))"
    if l1: "map_of ?Q1 k = Some p1" and l4: "map_of ?Q4 k = Some p4" and zero: "value_amt p4 = 0"
    for k p1 p4
  proof -
    have i: "inc_entry t ?Q4 (k, p1) = None" and d: "dec_entry t ?Q4 (k, p1) = None"
      using l4 zero by (simp_all add: inc_entry_def dec_entry_def)
    have in1: "k \<in> fst ` set ?Q1" using map_of_SomeD [OF l1] by force
    have in4: "k \<in> fst ` set ?Q4" using map_of_SomeD [OF l4] by force
    show ?thesis
      using in1 in4
      by (simp add: increased_key_iff [OF k1 l1] decreased_key_iff [OF k1 k4 l1] i d
          set_keys_only_in [OF k1] set_keys_only_in [OF k4])
  qed
  from cl skipped show ?thesis by (intro exI [of _ ?R]) auto
qed

text \<open>A position of prior value 0 and current value 150 is not emitted.\<close>

theorem zero_prior_is_skipped_witness:
  "map_of (build_positions create_position_key [fund_a_aapl 150]) ''FundA||AAPL'' =
     Some (position_of (fund_a_aapl 150)) \<and>
   map_of (build_positions create_position_key [fund_a_aapl 0]) ''FundA||AAPL'' =
     Some (position_of (fund_a_aapl 0)) \<and>
   value_amt (position_of (fund_a_aapl 0)) = 0 \<and>
   (\<exists>res. classify create_position_key (1 / 2) [fund_a_aapl 150] [fund_a_aapl 0] = Inr res \<and>
      ''FundA||AAPL'' \<notin> set (emitted_keys create_position_key (position_increases res)) \<and>
      ''FundA||AAPL'' \<notin> set (emitted_keys create_position_key (position_decreases res)) \<and>
      ''FundA||AAPL'' \<notin> set (emitted_keys create_position_key (new_buys res)) \<and>
      ''FundA||AAPL'' \<notin> set (emitted_keys create_position_key (position_exits res)))"
proof -
  have l1: "map_of (build_positions create_position_key [fund_a_aapl 150]) ''FundA||AAPL'' =
     Some (position_of (fund_a_aapl 150))"
    by (simp add: build_eval fund_a_aapl_def)
  have l4: "map_of (build_positions create_position_key [fund_a_aapl 0]) ''FundA||AAPL'' =
     Some (position_of (fund_a_aapl 0))"
    by (simp add: build_eval fund_a_aapl_def)
  have zero: "value_amt (position_of (fund_a_aapl 0)) = 0"
    by (simp add: position_of_def fund_a_aapl_def)
  from zero_prior_is_skipped [of "1 / 2" "[fund_a_aapl 150]" "[fund_a_aapl 0]"] l1 l4 zero
  show ?thesis by blast
qed





subsection \<open>Snapshots without a common key\<close>



lemma remdups_snoc: "remdups (xs @ [k]) = filter (\<lambda>x. x \<noteq> k) (remdups xs) @ [k]"
  by (induction xs) auto

lemma first_occurrences_Cons:
  "rev (remdups (rev (k # ks))) = k # filter (\<lambda>x. x \<noteq> k) (rev (remdups (rev ks)))"
  by (simp add: remdups_snoc rev_filter)

lemma foldl_key_order:
  "map fst (foldl (\<lambda>d r. dict_set (row_key key r) (position_of r) d) d rows) =
     map fst d @ filter (\<lambda>k. k \<notin> fst ` set d) (rev (remdups (rev (map (row_key key) rows))))"
proof (induction rows arbitrary: d)
  case Nil
  show ?case by simp
next
  case (Cons r rows)
  let ?k = "row_key key r" and ?firsts = "rev (remdups (rev (map (row_key key) rows)))"
  let ?d' = "dict_set ?k (position_of r) d"
  have step: "map fst (foldl (\<lambda>d r. dict_set (row_key key r) (position_of r) d) d (r # rows)) =
      map fst ?d' @ filter (\<lambda>k. k \<notin> fst ` set ?d') ?firsts"
    using Cons.IH [of ?d'] by simp
  have firsts: "rev (remdups (rev (map (row_key key) (r # rows)))) =
      ?k # filter (\<lambda>x. x \<noteq> ?k) ?firsts"
    using first_occurrences_Cons [of ?k "map (row_key key) rows"] by simp
  show ?case
  proof (cases "?k \<in> fst ` set d")
    case True
    then have keys: "map fst ?d' = map fst d" by (simp add: keys_dict_set)
    then have same: "fst ` set ?d' = fst ` set d" by (metis list.set_map)
    have "filter (\<lambda>k. k \<notin> fst ` set d) (filter (\<lambda>x. x \<noteq> ?k) ?firsts) =
        filter (\<lambda>k. k \<notin> fst ` set d) ?firsts"
      unfolding filter_filter using True by (intro filter_cong) blast+
    then show ?thesis
      unfolding step firsts keys same using True by simp
  next
    case False
    then have keys: "map fst ?d' = map fst d @ [?k]" by (simp add: keys_dict_set)
    then have more: "fst ` set ?d' = insert ?k (fst ` set d)"
      by (metis Un_insert_right list.set_map list.simps(15) set_append sup_bot.right_neutral empty_set)
    have "filter (\<lambda>k. k \<notin> insert ?k (fst ` set d)) ?firsts =
        filter (\<lambda>k. k \<notin> fst ` set d) (filter (\<lambda>x. x \<noteq> ?k) ?firsts)"
      unfolding filter_filter by (intro filter_cong) blast+
    then show ?thesis
      unfolding step firsts keys more using False by simp
  qed
qed

lemma build_key_order:
  "map fst (build_positions key rows) = rev (remdups (rev (map (row_key key) rows)))"
  unfolding build_positions_def foldl_key_order by simp

subsection \<open>Rows with the same key\<close>

text \<open>
  C4, as stated, fails. Two rows of one snapshot with the key \<open>FundA||AAPL\<close>: the
  specification's index is the error \<open>DuplicateKeyError\<close>, the scripts' index is built
  without any error and holds one entry, the second row.
\<close>

theorem duplicate_key_is_not_an_error:
  "spec_build_index create_position_key [fund_a_aapl 100, fund_a_aapl 160] =
     Inl DuplicateKeyError \<and>
   build_positions create_position_key [fund_a_aapl 100, fund_a_aapl 160] =
     [(''FundA||AAPL'', position_of (fund_a_aapl 160))] \<and>
   Inr (build_positions create_position_key [fund_a_aapl 100, fund_a_aapl 160]) \<noteq>
     spec_build_index create_position_key [fund_a_aapl 100, fund_a_aapl 160]"
  by (simp add: spec_build_index_def build_eval fund_a_aapl_def)

text \<open>
  C4, amended. Building the index never fails. A key looks up the last row that has it;
  the keys of the index are the keys of the rows without repetition, in the order of their
  first rows. When no two rows have the same key, the index is the one the specification
  describes.
\<close>

theorem duplicate_key_last_row_wins:
  "map_of (build_positions create_position_key rows) =
     map_of (rev (map (\<lambda>r. (row_key create_position_key r, position_of r)) rows)) \<and>
   map fst (build_positions create_position_key rows) =
     rev (remdups (rev (map (row_key create_position_key) rows))) \<and>
   (distinct (map (row_key create_position_key) rows) \<longrightarrow>
      Inr (build_positions create_position_key rows) = spec_build_index create_position_key rows)"
  by (simp add: map_of_build build_key_order spec_build_index_def build_distinct_rows)

text \<open>Two rows with different keys.\<close>

theorem duplicate_key_last_row_wins_witness:
  "distinct (map (row_key create_position_key) [fund_a_aapl 100, fund_b_new 50]) \<and>
   Inr (build_positions create_position_key [fund_a_aapl 100, fund_b_new 50]) =
     spec_build_index create_position_key [fund_a_aapl 100, fund_b_new 50] \<and>
   map fst (build_positions create_position_key [fund_a_aapl 100, fund_b_new 50]) =
     [''FundA||AAPL'', ''FundB||NEW'']"
proof -
  have d: "distinct (map (row_key create_position_key) [fund_a_aapl 100, fund_b_new 50])"
    by (simp add: row_key_def create_position_key_def fund_a_aapl_def fund_b_new_def)
  have k: "map (row_key create_position_key) [fund_a_aapl 100, fund_b_new 50] =
      [''FundA||AAPL'', ''FundB||NEW'']"
    by (simp add: row_key_def create_position_key_def fund_a_aapl_def fund_b_new_def)
  from duplicate_key_last_row_wins [of "[fund_a_aapl 100, fund_b_new 50]"] d
  show ?thesis unfolding k by simp
qed

lemma has_sep_iff: "has_sep s \<longleftrightarrow> (\<exists>xs ys. s = xs @ ''||'' @ ys)"
proof (induction s rule: has_sep.induct)
  case (1 a b s)
  show ?case
  proof
    assume "has_sep (a # b # s)"
    then consider "a = CHR ''|'' \<and> b = CHR ''|''" | "has_sep (b # s)" by auto
    then show "\<exists>xs ys. a # b # s = xs @ ''||'' @ ys"
    proof cases
      case 1
      then have "a # b # s = [] @ ''||'' @ s" by simp
      then show ?thesis by blast
    next
      case 2
      with "1.IH" obtain xs ys where "b # s = xs @ ''||'' @ ys" by blast
      then have "a # b # s = (a # xs) @ ''||'' @ ys" by simp
      then show ?thesis by blast
    qed
  next
    assume "\<exists>xs ys. a # b # s = xs @ ''||'' @ ys"
    then obtain xs ys where e: "a # b # s = xs @ ''||'' @ ys" by blast
    show "has_sep (a # b # s)"
    proof (cases xs)
      case Nil
      with e show ?thesis by simp
    next
      case (Cons x xs')
      with e have "b # s = xs' @ ''||'' @ ys" by simp
      then have "has_sep (b # s)" using "1.IH" by blast
      then show ?thesis by simp
    qed
  qed
qed (auto simp: Cons_eq_append_conv)

lemma split_sep_prefix:
  "\<not> has_sep f \<Longrightarrow> \<not> ends_with_bar f \<Longrightarrow>
     split_sep cur (f @ ''||'' @ c) = (rev cur @ f) # split_sep [] c"
proof (induction cur f rule: split_sep.induct)
  case (1 cur a b s)
  then show ?case by (auto simp: ends_with_bar_def)
next
  case (2 cur a)
  then show ?case by (auto simp: ends_with_bar_def)
next
  case (3 cur)
  show ?case by simp
qed

lemma split_sep_plain: "\<not> has_sep c \<Longrightarrow> split_sep cur c = [rev cur @ c]"
  by (induction cur c rule: split_sep.induct) auto

lemma key_injective:
  assumes "\<not> has_sep f1" "\<not> ends_with_bar f1" "\<not> has_sep f2" "\<not> ends_with_bar f2"
    and eq: "create_position_key f1 c1 = create_position_key f2 c2"
  shows "f1 = f2 \<and> c1 = c2"
proof -
  have "split_sep [] (f1 @ ''||'' @ c1) = split_sep [] (f2 @ ''||'' @ c2)"
    using eq by (simp add: create_position_key_def)
  then have "(rev [] @ f1) # split_sep [] c1 = (rev [] @ f2) # split_sep [] c2"
    by (simp only: split_sep_prefix [OF assms(1,2)] split_sep_prefix [OF assms(3,4)])
  then have "f1 = f2" by simp
  with eq show ?thesis by (simp add: create_position_key_def)
qed

lemma dict_set_rename:
  "inj_on g (insert k (fst ` set d)) \<Longrightarrow>
     dict_set (g k) v (map (apfst g) d) = map (apfst g) (dict_set k v d)"
proof (induction k v d rule: dict_set.induct)
  case (1 k v)
  show ?case by simp
next
  case (2 k v k' v' d)
  from "2.prems" have eq: "g k' = g k \<longleftrightarrow> k' = k"
    by (auto simp: inj_on_def)
  from "2.prems" have "inj_on g (insert k (fst ` set d))"
    by (rule inj_on_subset) auto
  then have "k' \<noteq> k \<Longrightarrow> dict_set (g k) v (map (apfst g) d) = map (apfst g) (dict_set k v d)"
    using "2.IH" by blast
  with eq show ?case by auto
qed

lemma map_of_rename:
  "inj_on g (insert k (fst ` set d)) \<Longrightarrow> map_of (map (apfst g) d) (g k) = map_of d k"
proof (induction d)
  case Nil
  show ?case by simp
next
  case (Cons kv d)
  obtain k' v' where kv: "kv = (k', v')" by (cases kv)
  from Cons.prems have eq: "g k' = g k \<longleftrightarrow> k' = k"
    by (auto simp: inj_on_def kv)
  from Cons.prems have "inj_on g (insert k (fst ` set d))"
    by (rule inj_on_subset) auto
  then have "map_of (map (apfst g) d) (g k) = map_of d k" by (rule Cons.IH)
  with eq show ?case by (auto simp: kv)
qed

lemma foldl_rename:
  assumes inj: "inj_on g K"
  shows "fst ` set d \<subseteq> K \<Longrightarrow> row_key key ` set rows \<subseteq> K \<Longrightarrow>
     foldl (\<lambda>d r. dict_set (row_key (\<lambda>f c. g (key f c)) r) (position_of r) d)
        (map (apfst g) d) rows =
     map (apfst g) (foldl (\<lambda>d r. dict_set (row_key key r) (position_of r) d) d rows)"
proof (induction rows arbitrary: d)
  case Nil
  show ?case by simp
next
  case (Cons r rows)
  let ?k = "row_key key r"
  have k: "row_key (\<lambda>f c. g (key f c)) r = g ?k" by (simp add: row_key_def)
  from Cons.prems have sub: "insert ?k (fst ` set d) \<subseteq> K" by auto
  then have "inj_on g (insert ?k (fst ` set d))" using inj by (rule inj_on_subset [rotated])
  then have step: "dict_set (g ?k) (position_of r) (map (apfst g) d) =
      map (apfst g) (dict_set ?k (position_of r) d)"
    by (rule dict_set_rename)
  have "fst ` set (dict_set ?k (position_of r) d) \<subseteq> K"
    using sub set_dict_set [of ?k "position_of r" d] by fastforce
  moreover from Cons.prems have "row_key key ` set rows \<subseteq> K" by simp
  ultimately show ?case using Cons.IH by (simp add: k step)
qed

lemma build_rename:
  "inj_on g K \<Longrightarrow> row_key key ` set rows \<subseteq> K \<Longrightarrow>
     build_positions (\<lambda>f c. g (key f c)) rows = map (apfst g) (build_positions key rows)"
  unfolding build_positions_def using foldl_rename [of g K "[]" key rows] by simp

lemma dict_has_rename:
  "inj_on g (insert k (fst ` set d)) \<Longrightarrow> dict_has (map (apfst g) d) (g k) = dict_has d k"
  by (simp add: dict_has_def map_of_rename)

lemma only_in_rename:
  assumes "inj_on g (fst ` set a \<union> fst ` set b)"
  shows "only_in (map (apfst g) a) (map (apfst g) b) = only_in a b"
proof -
  have "dict_has (map (apfst g) b) (g (fst kp)) = dict_has b (fst kp)" if "kp \<in> set a" for kp
  proof (rule dict_has_rename)
    from that have "insert (fst kp) (fst ` set b) \<subseteq> fst ` set a \<union> fst ` set b" by auto
    with assms show "inj_on g (insert (fst kp) (fst ` set b))" by (rule inj_on_subset)
  qed
  then have "filter ((\<lambda>(k, p). \<not> dict_has (map (apfst g) b) k) \<circ> apfst g) a =
      filter (\<lambda>(k, p). \<not> dict_has b k) a"
    by (intro filter_cong) (auto simp: case_prod_unfold)
  then show ?thesis
    by (simp add: only_in_def filter_map comp_def)
qed

lemma entries_rename:
  assumes "inj_on g (fst ` set q1 \<union> fst ` set q4)"
  shows "List.map_filter (inc_entry t (map (apfst g) q4)) (map (apfst g) q1) =
           List.map_filter (inc_entry t q4) q1"
    and "List.map_filter (dec_entry t (map (apfst g) q4)) (map (apfst g) q1) =
           List.map_filter (dec_entry t q4) q1"
proof -
  have look: "map_of (map (apfst g) q4) (g (fst kp)) = map_of q4 (fst kp)" if "kp \<in> set q1" for kp
  proof (rule map_of_rename)
    from that have "insert (fst kp) (fst ` set q4) \<subseteq> fst ` set q1 \<union> fst ` set q4" by auto
    with assms show "inj_on g (insert (fst kp) (fst ` set q4))" by (rule inj_on_subset)
  qed
  have i: "inc_entry t (map (apfst g) q4) (apfst g kp) = inc_entry t q4 kp" if "kp \<in> set q1" for kp
    using look [OF that] by (cases kp) (simp add: inc_entry_def Let_def split: option.split)
  have d: "dec_entry t (map (apfst g) q4) (apfst g kp) = dec_entry t q4 kp" if "kp \<in> set q1" for kp
    using look [OF that] by (cases kp) (simp add: dec_entry_def Let_def split: option.split)
  have gen: "(\<And>kp. kp \<in> set xs \<Longrightarrow> f' (apfst g kp) = f kp) \<Longrightarrow>
      List.map_filter f' (map (apfst g) xs) = List.map_filter f xs"
    for f' f :: "_ \<Rightarrow> position option" and xs
    by (induction xs) (simp_all add: map_filter_simps split: option.split)
  show "List.map_filter (inc_entry t (map (apfst g) q4)) (map (apfst g) q1) =
           List.map_filter (inc_entry t q4) q1"
    by (rule gen) (rule i)
  show "List.map_filter (dec_entry t (map (apfst g) q4)) (map (apfst g) q1) =
           List.map_filter (dec_entry t q4) q1"
    by (rule gen) (rule d)
qed

lemma classify_rename:
  assumes "inj_on g (row_key key ` (set q1 \<union> set q4))"
  shows "classify (\<lambda>f c. g (key f c)) t q1 q4 = classify key t q1 q4"
proof -
  let ?K = "row_key key ` (set q1 \<union> set q4)"
  have b1: "build_positions (\<lambda>f c. g (key f c)) q1 = map (apfst g) (build_positions key q1)"
    by (rule build_rename [OF assms]) auto
  have b4: "build_positions (\<lambda>f c. g (key f c)) q4 = map (apfst g) (build_positions key q4)"
    by (rule build_rename [OF assms]) auto
  have inj14: "inj_on g (fst ` set (build_positions key q1) \<union> fst ` set (build_positions key q4))"
    using assms by (simp add: keys_build image_Un)
  then have inj41: "inj_on g (fst ` set (build_positions key q4) \<union> fst ` set (build_positions key q1))"
    by (simp add: Un_commute)
  show ?thesis
    unfolding classify_eq b1 b4
    by (simp add: only_in_rename [OF inj14] only_in_rename [OF inj41] entries_rename [OF inj14])
qed

lemmas classify_eval = classify_def build_positions_def row_key_def create_position_key_def
  position_of_def only_in_def dict_has_def py_div_def change_data_def

subsection \<open>Position keys and their separator\<close>

text \<open>
  C10, as stated, fails. None of the strings \<open>a|\<close>, \<open>b\<close>, \<open>a\<close>, \<open>|b\<close> contains
  the separator, the pairs \<open>(a|, b)\<close> and \<open>(a, |b)\<close> differ, and both have the key
  \<open>a|||b\<close>. Classified by that key the two rows are one position that increased;
  classified by the pair they are one position opened and one closed.
\<close>

theorem separator_free_keys_collide:
  "\<not> has_sep ''a|'' \<and> \<not> has_sep ''b'' \<and> \<not> has_sep ''a'' \<and> \<not> has_sep ''|b'' \<and>
   (''a|'', ''b'') \<noteq> (''a'', ''|b'') \<and>
   create_position_key ''a|'' ''b'' = create_position_key ''a'' ''|b'' \<and>
   classify create_position_key (1 / 2) [bar_row ''a'' ''|b'' 160] [bar_row ''a|'' ''b'' 100] \<noteq>
     classify Pair (1 / 2) [bar_row ''a'' ''|b'' 160] [bar_row ''a|'' ''b'' 100]"
  by (simp add: classify_eval bar_row_def)

text \<open>
  C10, amended. For fund names that contain no separator and do not end in a bar, equal
  keys come from equal fund names and equal companies; for snapshots whose rows all have
  such fund names, the classification by the string key is the classification by the pair
  of fund name and company; and when the company contains no separator either, splitting
  the key gives the pair back. Without the precondition two different pairs can have one
  key, and splitting it can raise \<open>ValueError\<close>.
\<close>

theorem position_key_injective:
  "(\<not> has_sep f1 \<and> \<not> ends_with_bar f1 \<and> \<not> has_sep f2 \<and> \<not> ends_with_bar f2 \<and>
    create_position_key f1 c1 = create_position_key f2 c2 \<longrightarrow> f1 = f2 \<and> c1 = c2) \<and>
   ((\<forall>r \<in> set q1_2025 \<union> set q4_2024.
       \<not> has_sep (col_fund_name r) \<and> \<not> ends_with_bar (col_fund_name r)) \<longrightarrow>
     classify create_position_key t q1_2025 q4_2024 = classify Pair t q1_2025 q4_2024) \<and>
   (\<not> has_sep f1 \<and> \<not> ends_with_bar f1 \<and> \<not> has_sep c1 \<longrightarrow>
     split_position_key (create_position_key f1 c1) = Inr (f1, c1)) \<and>
   create_position_key ''a||b'' ''c'' = create_position_key ''a'' ''b||c'' \<and>
   split_position_key (create_position_key ''a||b'' ''c'') = Inl ValueError"
proof (intro conjI impI)
  assume "\<not> has_sep f1 \<and> \<not> ends_with_bar f1 \<and> \<not> has_sep f2 \<and> \<not> ends_with_bar f2 \<and>
    create_position_key f1 c1 = create_position_key f2 c2"
  then have fc: "f1 = f2 \<and> c1 = c2" using key_injective [of f1 f2 c1 c2] by blast
  from fc show "f1 = f2" ..
  from fc show "c1 = c2" ..
next
  assume clean: "\<forall>r \<in> set q1_2025 \<union> set q4_2024.
       \<not> has_sep (col_fund_name r) \<and> \<not> ends_with_bar (col_fund_name r)"
  let ?g = "\<lambda>(f, c). create_position_key f c"
  have "inj_on ?g (row_key Pair ` (set q1_2025 \<union> set q4_2024))"
  proof (rule inj_onI)
    fix x y
    assume x: "x \<in> row_key Pair ` (set q1_2025 \<union> set q4_2024)"
      and y: "y \<in> row_key Pair ` (set q1_2025 \<union> set q4_2024)"
      and eq: "?g x = ?g y"
    from x clean have "\<not> has_sep (fst x) \<and> \<not> ends_with_bar (fst x)"
      by (auto simp: row_key_def)
    moreover from y clean have "\<not> has_sep (fst y) \<and> \<not> ends_with_bar (fst y)"
      by (auto simp: row_key_def)
    moreover from eq have "create_position_key (fst x) (snd x) = create_position_key (fst y) (snd y)"
      by (simp add: case_prod_unfold)
    ultimately have "fst x = fst y \<and> snd x = snd y"
      using key_injective by blast
    then show "x = y" by (simp add: prod_eq_iff)
  qed
  from classify_rename [OF this, of t]
  show "classify create_position_key t q1_2025 q4_2024 = classify Pair t q1_2025 q4_2024"
    by simp
next
  assume "\<not> has_sep f1 \<and> \<not> ends_with_bar f1 \<and> \<not> has_sep c1"
  then have f: "\<not> has_sep f1" "\<not> ends_with_bar f1" and c: "\<not> has_sep c1" by blast+
  have "split_sep [] (f1 @ ''||'' @ c1) = (rev [] @ f1) # split_sep [] c1"
    using f by (rule split_sep_prefix)
  also have "\<dots> = [f1, c1]"
    using split_sep_plain [OF c, of "[]"] by simp
  finally have "split_sep [] (f1 @ ''||'' @ c1) = [f1, c1]" .
  then show "split_position_key (create_position_key f1 c1) = Inr (f1, c1)"
    by (simp add: split_position_key_def create_position_key_def)
next
  show "create_position_key ''a||b'' ''c'' = create_position_key ''a'' ''b||c''"
    by (simp add: create_position_key_def)
next
  show "split_position_key (create_position_key ''a||b'' ''c'') = Inl ValueError"
    by (simp add: split_position_key_def create_position_key_def)
qed

text \<open>The fund names \<open>FundA\<close> and \<open>FundB\<close> satisfy the precondition.\<close>

theorem position_key_injective_witness:
  "\<not> has_sep ''FundA'' \<and> \<not> ends_with_bar ''FundA'' \<and> \<not> has_sep ''AAPL'' \<and>
   \<not> has_sep (col_fund_name (fund_a_aapl 160)) \<and> \<not> ends_with_bar (col_fund_name (fund_a_aapl 160)) \<and>
   \<not> has_sep (col_fund_name (fund_b_new 50)) \<and> \<not> ends_with_bar (col_fund_name (fund_b_new 50)) \<and>
   classify create_position_key (1 / 2) [fund_a_aapl 160] [fund_b_new 50] =
     classify Pair (1 / 2) [fund_a_aapl 160] [fund_b_new 50] \<and>
   split_position_key (create_position_key ''FundA'' ''AAPL'') = Inr (''FundA'', ''AAPL'')"
proof -
  have a: "\<not> has_sep ''FundA'' \<and> \<not> ends_with_bar ''FundA'' \<and> \<not> has_sep ''AAPL''"
    by (simp add: ends_with_bar_def)
  have b: "\<not> has_sep (col_fund_name (fund_a_aapl 160)) \<and>
      \<not> ends_with_bar (col_fund_name (fund_a_aapl 160)) \<and>
      \<not> has_sep (col_fund_name (fund_b_new 50)) \<and> \<not> ends_with_bar (col_fund_name (fund_b_new 50))"
    by (simp add: ends_with_bar_def fund_a_aapl_def fund_b_new_def)
  then have c: "\<forall>r \<in> set [fund_a_aapl 160] \<union> set [fund_b_new 50].
       \<not> has_sep (col_fund_name r) \<and> \<not> ends_with_bar (col_fund_name r)"
    by simp
  from position_key_injective [of "''FundA''" "''FundA''" "''AAPL''" "''AAPL''"
      "[fund_a_aapl 160]" "[fund_b_new 50]" "1 / 2"] a b c
  show ?thesis by blast
qed

section \<open>Properties of the row loader\<close>















lemmas float_eval = py_float_def py_strip_def is_space_def take_sign_def float_literal_def
  digitpart_def is_digit_def exponent_def nat_of_digits_def digit_val_def

lemmas row_eval = parse_row_def strip_cell_def row_get_def parse_value_def parse_value_text_def
  value_text_parts_def
  parse_shares_def remove_char_def py_upper_def upper_char_def

subsection \<open>Reading the value field\<close>



lemma parse_row_accepts_iff:
  "(\<exists>h. parse_row fund r = Inr (Some h)) \<longleftrightarrow>
     (\<exists>c tk. row_get (company_cell r) (Str []) = Str c \<and>
        row_get (ticker_cell r) (Str []) = Str tk \<and> py_strip c \<noteq> [] \<and>
        (parse_value (row_get (value_cell r) (Num 0)) > 0 \<or>
         parse_shares (row_get (shares_cell r) (Num 0)) > 0))"
  by (cases "row_get (company_cell r) (Str [])"; cases "row_get (ticker_cell r) (Str [])")
    (simp_all add: parse_row_def strip_cell_def Let_def)

subsection \<open>Which rows are accepted\<close>

text \<open>
  C7, on the code. A row with the company \<open>Acme Corp\<close>, value 100, shares 10 and an empty
  ticker cell (NaN) satisfies the acceptance predicate of the specification, and the loader drops
  it: \<^verbatim>\<open>.strip()\<close> on the ticker raises, and the row's \<^verbatim>\<open>except\<close> skips
  the row. The same row with the ticker \<open>ACME\<close> is accepted. In general a row is accepted
  if and only if its company and ticker cells are both text, the stripped company is not
  empty, and the value or the shares read from it are positive.
\<close>

theorem row_without_ticker_is_dropped:
  "parse_row fund (acme_row NaN (Num 100) (Num 10)) = Inl AttributeError \<and>
   parse_csv_file fund [acme_row NaN (Num 100) (Num 10)] [] = ([], 0) \<and>
   parse_csv_file fund [acme_row (Str ''ACME'') (Num 100) (Num 10)] [] =
     ([\<lparr> h_fund_name = fund, h_company = ''Acme Corp'', h_ticker = ''ACME'', h_shares = 10,
         h_value = 100 \<rparr>], 1) \<and>
   ((\<exists>h. parse_row fund r = Inr (Some h)) \<longleftrightarrow>
     (\<exists>c tk. row_get (company_cell r) (Str []) = Str c \<and>
        row_get (ticker_cell r) (Str []) = Str tk \<and> py_strip c \<noteq> [] \<and>
        (parse_value (row_get (value_cell r) (Num 0)) > 0 \<or>
         parse_shares (row_get (shares_cell r) (Num 0)) > 0)))"
proof -
  have a: "parse_row fund (acme_row NaN (Num 100) (Num 10)) = Inl AttributeError"
    by (simp add: acme_row_def row_eval py_strip_def is_space_def)
  have b: "parse_row fund (acme_row (Str ''ACME'') (Num 100) (Num 10)) =
      Inr (Some \<lparr> h_fund_name = fund, h_company = ''Acme Corp'', h_ticker = ''ACME'',
        h_shares = 10, h_value = 100 \<rparr>)"
    by (simp add: acme_row_def row_eval py_strip_def is_space_def)
  show ?thesis
    using parse_row_accepts_iff [of fund r] by (simp add: parse_csv_file_def a b)
qed

lemma parse_rows_append:
  "parse_rows fund (rs1 @ rs2) st = parse_rows fund rs2 (parse_rows fund rs1 st)"
proof (induction rs1 arbitrary: st)
  case Nil
  show ?case by simp
next
  case (Cons r rs1)
  obtain data cnt where st: "st = (data, cnt)" by (cases st)
  show ?case
    unfolding st by (simp add: Cons.IH split: sum.split option.split)
qed

lemma parse_rows_count:
  "parse_rows fund rows (data, cnt) = (data', cnt') \<Longrightarrow>
     length data' + cnt = length data + cnt'"
proof (induction rows arbitrary: data cnt)
  case Nil
  then show ?case by simp
next
  case (Cons r rows)
  show ?case
  proof (cases "parse_row fund r")
    case (Inl e)
    with Cons.prems have "parse_rows fund rows (data, cnt) = (data', cnt')" by simp
    then show ?thesis by (rule Cons.IH)
  next
    case (Inr res)
    show ?thesis
    proof (cases res)
      case None
      with Inr Cons.prems have "parse_rows fund rows (data, cnt) = (data', cnt')" by simp
      then show ?thesis by (rule Cons.IH)
    next
      case (Some h)
      with Inr Cons.prems have "parse_rows fund rows (data @ [h], cnt + 1) = (data', cnt')"
        by simp
      from Cons.IH [OF this] show ?thesis by simp
    qed
  qed
qed

subsection \<open>Rows that cannot be read\<close>

text \<open>
  C6, as stated, fails. The value text \<open>n/a\<close> cannot be read as a number; the row is not
  dropped but accepted, with value 0. And the number the loader returns counts the accepted
  rows: of three rows with one dropped, it returns 2.
\<close>

theorem uninterpretable_value_is_not_dropped:
  "py_float ''n/a'' = None \<and>
   parse_csv_file ''Fund'' [acme_row (Str ''ACME'') (Str ''n/a'') (Str ''1,000'')] [] =
     ([\<lparr> h_fund_name = ''Fund'', h_company = ''Acme Corp'', h_ticker = ''ACME'',
         h_shares = 1000, h_value = 0 \<rparr>], 1) \<and>
   parse_csv_file ''Fund''
     [acme_row (Str ''ACME'') (Num 100) (Num 10), no_company_row,
      acme_row (Str ''ACME'') (Num 200) (Num 20)] [] =
     ([\<lparr> h_fund_name = ''Fund'', h_company = ''Acme Corp'', h_ticker = ''ACME'',
         h_shares = 10, h_value = 100 \<rparr>,
       \<lparr> h_fund_name = ''Fund'', h_company = ''Acme Corp'', h_ticker = ''ACME'',
         h_shares = 20, h_value = 200 \<rparr>], 2)"
proof (intro conjI)
  show "py_float ''n/a'' = None"
    by (simp add: float_eval)
  show "parse_csv_file ''Fund'' [acme_row (Str ''ACME'') (Str ''n/a'') (Str ''1,000'')] [] =
     ([\<lparr> h_fund_name = ''Fund'', h_company = ''Acme Corp'', h_ticker = ''ACME'',
         h_shares = 1000, h_value = 0 \<rparr>], 1)"
    by (simp add: parse_csv_file_def acme_row_def row_eval float_eval)
  show "parse_csv_file ''Fund''
     [acme_row (Str ''ACME'') (Num 100) (Num 10), no_company_row,
      acme_row (Str ''ACME'') (Num 200) (Num 20)] [] =
     ([\<lparr> h_fund_name = ''Fund'', h_company = ''Acme Corp'', h_ticker = ''ACME'',
         h_shares = 10, h_value = 100 \<rparr>,
       \<lparr> h_fund_name = ''Fund'', h_company = ''Acme Corp'', h_ticker = ''ACME'',
         h_shares = 20, h_value = 200 \<rparr>], 2)"
    by (simp add: parse_csv_file_def acme_row_def no_company_row_def row_eval py_strip_def is_space_def)
qed

text \<open>
  C6, amended. A row whose processing raises is skipped, and the rows before and after it
  are loaded as if it were not there; loading a list of rows is loading its first part and
  then the rest, whatever the rows are; the number returned is the number of holdings
  added; and a shares or value text that cannot be read as a number is read as 0.
\<close>

theorem bad_rows_are_skipped:
  "(parse_row fund r = Inl e \<longrightarrow>
      parse_rows fund (rs1 @ r # rs2) st = parse_rows fund (rs1 @ rs2) st) \<and>
   parse_rows fund (rs1 @ rs2) st = parse_rows fund rs2 (parse_rows fund rs1 st) \<and>
   length (fst (parse_csv_file fund rows holdings_data)) =
     length holdings_data + snd (parse_csv_file fund rows holdings_data) \<and>
   (py_float (remove_char (CHR '','') s) = None \<longrightarrow> parse_shares (Str s) = 0) \<and>
   (py_float (fst (value_text_parts s)) = None \<longrightarrow> parse_value (Str s) = 0)"
proof (intro conjI impI)
  assume "parse_row fund r = Inl e"
  then have "parse_rows fund (r # rs2) st' = parse_rows fund rs2 st'" for st'
    by (cases st') simp
  then show "parse_rows fund (rs1 @ r # rs2) st = parse_rows fund (rs1 @ rs2) st"
    by (simp add: parse_rows_append)
next
  show "parse_rows fund (rs1 @ rs2) st = parse_rows fund rs2 (parse_rows fund rs1 st)"
    by (rule parse_rows_append)
next
  obtain data' cnt' where res: "parse_rows fund rows (holdings_data, 0) = (data', cnt')"
    by (cases "parse_rows fund rows (holdings_data, 0)")
  from parse_rows_count [OF res]
  show "length (fst (parse_csv_file fund rows holdings_data)) =
     length holdings_data + snd (parse_csv_file fund rows holdings_data)"
    by (simp add: parse_csv_file_def res)
next
  assume "py_float (remove_char (CHR '','') s) = None"
  then show "parse_shares (Str s) = 0" by (simp add: parse_shares_def)
next
  assume "py_float (fst (value_text_parts s)) = None"
  then show "parse_value (Str s) = 0"
    by (simp add: parse_value_def parse_value_text_def case_prod_unfold)
qed

text \<open>A row with an empty company cell between two good rows, and the shares text \<open>n/a\<close>.\<close>

theorem bad_rows_are_skipped_witness:
  "parse_row ''Fund'' no_company_row = Inl AttributeError \<and>
   parse_rows ''Fund''
     ([acme_row (Str ''ACME'') (Num 100) (Num 10)] @ no_company_row #
      [acme_row (Str ''ACME'') (Num 200) (Num 20)]) ([], 0) =
   parse_rows ''Fund''
     ([acme_row (Str ''ACME'') (Num 100) (Num 10)] @
      [acme_row (Str ''ACME'') (Num 200) (Num 20)]) ([], 0) \<and>
   py_float (remove_char (CHR '','') ''n/a'') = None \<and>
   parse_shares (Str ''n/a'') = 0 \<and>
   py_float (fst (value_text_parts ''n/a'')) = None \<and>
   parse_value (Str ''n/a'') = 0"
proof -
  have a: "parse_row ''Fund'' no_company_row = Inl AttributeError"
    by (simp add: no_company_row_def row_eval)
  have b: "py_float (remove_char (CHR '','') ''n/a'') = None"
    by (simp add: remove_char_def float_eval)
  have c: "py_float (fst (value_text_parts ''n/a'')) = None"
    by (simp add: value_text_parts_def remove_char_def py_upper_def upper_char_def float_eval)
  from bad_rows_are_skipped [of "''Fund''" no_company_row AttributeError
      "[acme_row (Str ''ACME'') (Num 100) (Num 10)]"
      "[acme_row (Str ''ACME'') (Num 200) (Num 20)]" "([], 0)" "[]" "[]" "''n/a''"] a b c
  show ?thesis by blast
qed

section \<open>Properties of the summaries\<close>

lemma sorted_wrt_sort_desc: "sorted_wrt (\<lambda>a b. f b \<le> f a) (sort_desc f xs)"
proof -
  have "sorted (map f (sort_key f (rev xs)))" by (rule sorted_sort_key)
  then have "sorted_wrt (\<lambda>a b. f a \<le> f b) (sort_key f (rev xs))"
    by (simp add: sorted_wrt_map)
  then show ?thesis
    by (simp add: sort_desc_def sorted_wrt_rev)
qed

lemma pair_order_is_count_then_value:
  "(funds_count b, total_value b) \<le> (funds_count a, total_value a) \<longleftrightarrow> count_then_value a b"
  by (auto simp: count_then_value_def less_eq_prod_def)

lemma detailed_loop_counts:
  "detailed_loop positions category_name items = Inr ds \<Longrightarrow> map funds_count ds = map snd items"
proof (induction items arbitrary: ds)
  case Nil
  then show ?case by simp
next
  case (Cons item items)
  obtain cname n where item: "item = (cname, n)" by (cases item)
  from Cons.prems obtain d ds' where d: "detailed_entry positions category_name item = Inr d"
    and rest: "detailed_loop positions category_name items = Inr ds'" and ds: "ds = d # ds'"
    by (auto split: sum.splits)
  from d have "funds_count d = n"
    by (auto simp: detailed_entry_def item Let_def split: if_splits sum.splits)
  with Cons.IH [OF rest] ds show ?case by (simp add: item)
qed

lemma detailed_loop_plain:
  "category_name \<noteq> ''increases'' \<Longrightarrow> \<exists>ds. detailed_loop positions category_name items = Inr ds"
proof (induction items)
  case Nil
  show ?case by simp
next
  case (Cons item items)
  then obtain ds where "detailed_loop positions category_name items = Inr ds" by blast
  moreover from Cons.prems have "\<exists>d. detailed_entry positions category_name item = Inr d"
    by (cases item) (simp add: detailed_entry_def Let_def)
  ultimately show ?case by auto
qed

subsection \<open>The order of the summary rows\<close>

text \<open>
  C9, as stated, fails for \<^verbatim>\<open>create_detailed_analysis\<close>. Two companies are each
  bought by one fund, the first for 10 and the second for 20: the rows come out in that
  order, the smaller total value first, which is not descending in the pair of fund count
  and total value.
\<close>

theorem detailed_ties_keep_first_seen_order:
  "create_detailed_analysis two_buys (counter_of (map company two_buys)) ''new_buys'' =
     Inr [\<lparr> d_company = ''Xenon Bio'', d_ticker = ''X'', funds_count = 1, fund_names = None,
            total_value = 10, avg_position_size = 10, d_industry = ''Biotechnology'',
            avg_pct_increase = None, total_dollar_increase = None \<rparr>,
          \<lparr> d_company = ''Yttrium Rx'', d_ticker = ''X'', funds_count = 1, fund_names = None,
            total_value = 20, avg_position_size = 20, d_industry = ''Biotechnology'',
            avg_pct_increase = None, total_dollar_increase = None \<rparr>] \<and>
   \<not> sorted_wrt count_then_value
     [\<lparr> d_company = ''Xenon Bio'', d_ticker = ''X'', funds_count = 1, fund_names = None,
        total_value = 10, avg_position_size = 10, d_industry = ''Biotechnology'',
        avg_pct_increase = None, total_dollar_increase = None \<rparr>,
      \<lparr> d_company = ''Yttrium Rx'', d_ticker = ''X'', funds_count = 1, fund_names = None,
        total_value = 20, avg_position_size = 20, d_industry = ''Biotechnology'',
        avg_pct_increase = None, total_dollar_increase = None \<rparr>]"
proof (intro conjI)
  have c: "counter_of (map company two_buys) = [(''Xenon Bio'', 1), (''Yttrium Rx'', 1)]"
    by (simp add: counter_of_def two_buys_def position_of_def bar_row_def get_or_def)
  have m: "most_common 30 [(''Xenon Bio'', 1), (''Yttrium Rx'', 1 :: nat)] =
      [(''Xenon Bio'', 1), (''Yttrium Rx'', 1)]"
    by (simp add: most_common_def sort_desc_def)
  show "create_detailed_analysis two_buys (counter_of (map company two_buys)) ''new_buys'' =
     Inr [\<lparr> d_company = ''Xenon Bio'', d_ticker = ''X'', funds_count = 1, fund_names = None,
            total_value = 10, avg_position_size = 10, d_industry = ''Biotechnology'',
            avg_pct_increase = None, total_dollar_increase = None \<rparr>,
          \<lparr> d_company = ''Yttrium Rx'', d_ticker = ''X'', funds_count = 1, fund_names = None,
            total_value = 20, avg_position_size = 20, d_industry = ''Biotechnology'',
            avg_pct_increase = None, total_dollar_increase = None \<rparr>]"
    unfolding create_detailed_analysis_def c m
    by (simp add: detailed_entry_def two_buys_def position_of_def bar_row_def)
next
  show "\<not> sorted_wrt count_then_value
     [\<lparr> d_company = ''Xenon Bio'', d_ticker = ''X'', funds_count = 1, fund_names = None,
        total_value = 10, avg_position_size = 10, d_industry = ''Biotechnology'',
        avg_pct_increase = None, total_dollar_increase = None \<rparr>,
      \<lparr> d_company = ''Yttrium Rx'', d_ticker = ''X'', funds_count = 1, fund_names = None,
        total_value = 20, avg_position_size = 20, d_industry = ''Biotechnology'',
        avg_pct_increase = None, total_dollar_increase = None \<rparr>]"
    by (simp add: count_then_value_def)
qed

text \<open>
  C9, amended. The rows of \<^verbatim>\<open>create_enhanced_summary\<close> are in descending order of
  the pair of fund count and total value: of two rows, the earlier has more funds, or as
  many funds and at least the total value. The rows of \<^verbatim>\<open>create_detailed_analysis\<close>,
  whenever it returns, are in descending order of the fund count; for a category other
  than \<open>increases\<close> it always returns.
\<close>

theorem aggregates_are_ordered:
  "sorted_wrt count_then_value (create_enhanced_summary positions category_name) \<and>
   (\<forall>ds. create_detailed_analysis positions company_counter category_name = Inr ds \<longrightarrow>
      sorted_wrt (\<lambda>a b. funds_count b \<le> funds_count a) ds) \<and>
   (category_name \<noteq> ''increases'' \<longrightarrow>
      (\<exists>ds. create_detailed_analysis positions company_counter category_name = Inr ds))"
proof (intro conjI allI impI)
  let ?key = "\<lambda>x. (funds_count x, total_value x)"
  have "sorted_wrt (\<lambda>a b. ?key b \<le> ?key a)
      (sort_desc ?key (map (enhanced_detail category_name) (company_to_funds positions)))"
    by (rule sorted_wrt_sort_desc)
  moreover have "(\<lambda>a b. ?key b \<le> ?key a) = count_then_value"
    by (intro ext) (rule pair_order_is_count_then_value)
  ultimately have "sorted_wrt count_then_value
      (sort_desc ?key (map (enhanced_detail category_name) (company_to_funds positions)))"
    by (simp only:)
  then show "sorted_wrt count_then_value (create_enhanced_summary positions category_name)"
    unfolding create_enhanced_summary_def by (rule sorted_wrt_take)
next
  fix ds
  assume "create_detailed_analysis positions company_counter category_name = Inr ds"
  then have "map funds_count ds = map snd (most_common 30 company_counter)"
    unfolding create_detailed_analysis_def by (rule detailed_loop_counts)
  moreover have "sorted_wrt (\<lambda>a b. snd b \<le> snd a) (most_common 30 company_counter)"
    unfolding most_common_def by (intro sorted_wrt_take sorted_wrt_sort_desc)
  then have "sorted_wrt (\<lambda>a b. b \<le> a) (map snd (most_common 30 company_counter))"
    by (simp add: sorted_wrt_map)
  ultimately have "sorted_wrt (\<lambda>a b. b \<le> a) (map funds_count ds)" by simp
  then show "sorted_wrt (\<lambda>a b. funds_count b \<le> funds_count a) ds"
    by (simp add: sorted_wrt_map)
next
  assume "category_name \<noteq> ''increases''"
  then show "\<exists>ds. create_detailed_analysis positions company_counter category_name = Inr ds"
    unfolding create_detailed_analysis_def by (rule detailed_loop_plain)
qed

text \<open>The summaries of the two bought companies.\<close>

theorem aggregates_are_ordered_witness:
  "''new_buys'' \<noteq> ''increases'' \<and>
   create_detailed_analysis two_buys (counter_of (map company two_buys)) ''new_buys'' =
     Inr [\<lparr> d_company = ''Xenon Bio'', d_ticker = ''X'', funds_count = 1, fund_names = None,
            total_value = 10, avg_position_size = 10, d_industry = ''Biotechnology'',
            avg_pct_increase = None, total_dollar_increase = None \<rparr>,
          \<lparr> d_company = ''Yttrium Rx'', d_ticker = ''X'', funds_count = 1, fund_names = None,
            total_value = 20, avg_position_size = 20, d_industry = ''Biotechnology'',
            avg_pct_increase = None, total_dollar_increase = None \<rparr>] \<and>
   sorted_wrt (\<lambda>a b. funds_count b \<le> funds_count a)
     [\<lparr> d_company = ''Xenon Bio'', d_ticker = ''X'', funds_count = 1, fund_names = None,
        total_value = 10, avg_position_size = 10, d_industry = ''Biotechnology'',
        avg_pct_increase = None, total_dollar_increase = None \<rparr>,
      \<lparr> d_company = ''Yttrium Rx'', d_ticker = ''X'', funds_count = 1, fund_names = None,
        total_value = 20, avg_position_size = 20, d_industry = ''Biotechnology'',
        avg_pct_increase = None, total_dollar_increase = None \<rparr>] \<and>
   sorted_wrt count_then_value (create_enhanced_summary two_buys ''new_buys'')"
proof -
  have n: "''new_buys'' \<noteq> ''increases''" by simp
  have c: "counter_of (map company two_buys) = [(''Xenon Bio'', 1), (''Yttrium Rx'', 1)]"
    by (simp add: counter_of_def two_buys_def position_of_def bar_row_def get_or_def)
  have m: "most_common 30 [(''Xenon Bio'', 1), (''Yttrium Rx'', 1 :: nat)] =
      [(''Xenon Bio'', 1), (''Yttrium Rx'', 1)]"
    by (simp add: most_common_def sort_desc_def)
  have e: "create_detailed_analysis two_buys (counter_of (map company two_buys)) ''new_buys'' =
     Inr [\<lparr> d_company = ''Xenon Bio'', d_ticker = ''X'', funds_count = 1, fund_names = None,
            total_value = 10, avg_position_size = 10, d_industry = ''Biotechnology'',
            avg_pct_increase = None, total_dollar_increase = None \<rparr>,
          \<lparr> d_company = ''Yttrium Rx'', d_ticker = ''X'', funds_count = 1, fund_names = None,
            total_value = 20, avg_position_size = 20, d_industry = ''Biotechnology'',
            avg_pct_increase = None, total_dollar_increase = None \<rparr>]"
    unfolding create_detailed_analysis_def c m
    by (simp add: detailed_entry_def two_buys_def position_of_def bar_row_def)
  from aggregates_are_ordered [of two_buys "''new_buys''" "counter_of (map company two_buys)"] n e
  show ?thesis by blast
qed

end
